theory Spec2Isabelle
  imports Complex_Main "HOL-Library.AList"
begin

section \<open>Values shared by the selectors and the recognizer\<close>

text \<open>
  Python exceptions are values.  A call that may raise returns \<open>exn + 'a\<close>, with \<open>Inl\<close>
  for the exception.  \<open>LibraryError\<close> stands for whatever the fitting, scoring or fold
  library raises; the bare \<^verbatim>\<open>except:\<close> clauses of the source do not look at the kind.
\<close>

datatype exn = AttributeError | UnboundLocalError | IndexError | KeyError | ValueError | LibraryError

text \<open>
  A Python float is a real number, an infinity or NaN.  Only the comparisons of the source
  (\<^verbatim>\<open><\<close> and \<^verbatim>\<open>>\<close>) are given a meaning here; float arithmetic is supplied by the
  environment (see \<open>collaborators\<close>), so no rounding behaviour is assumed.
\<close>

datatype pyfloat = Fin real | PInf | NInf | NaN

fun py_lt :: "pyfloat \<Rightarrow> pyfloat \<Rightarrow> bool" where
  "py_lt NaN b = False"
| "py_lt a NaN = False"
| "py_lt PInf b = False"
| "py_lt a NInf = False"
| "py_lt NInf b = True"
| "py_lt a PInf = True"
| "py_lt (Fin x) (Fin y) = (x < y)"

definition py_gt :: "pyfloat \<Rightarrow> pyfloat \<Rightarrow> bool" where
  "py_gt a b = py_lt b a"

text \<open>
  The external collaborators: hmmlearn (\<^verbatim>\<open>GaussianHMM(...).fit\<close>, \<^verbatim>\<open>model.score\<close>),
  scikit-learn (\<^verbatim>\<open>KFold().split\<close>) and the numpy and float arithmetic the source uses.
  An observation matrix is a list of frames, a frame a list of feature values.
  \<^item> \<open>hmm_fit n seed X lengths\<close> is
    \<^verbatim>\<open>GaussianHMM(n_components=n, covariance_type="diag", n_iter=1000, random_state=seed, verbose=False).fit(X, lengths)\<close>;
  \<^item> \<open>hmm_score m X lengths\<close> is \<^verbatim>\<open>m.score(X, lengths)\<close>;
  \<^item> \<open>kfold_split k\<close> is the list of \<^verbatim>\<open>(train_idx, test_idx)\<close> pairs that
    \<^verbatim>\<open>KFold().split(seqs)\<close> yields for \<open>k = len(seqs)\<close>, or the exception it raises;
  \<^item> \<open>np_log k\<close> is \<^verbatim>\<open>np.log(k)\<close> of a length, \<open>np_mean\<close> is \<^verbatim>\<open>np.mean\<close> of a list;
  \<^item> \<open>fl_mul_int i x\<close> is \<^verbatim>\<open>i * x\<close> for a Python int and a float, \<open>fl_add\<close> and
    \<open>fl_sub\<close> are float \<^verbatim>\<open>+\<close> and \<^verbatim>\<open>-\<close>.
\<close>

record ('a, 'm) collaborators =
  hmm_fit :: "int \<Rightarrow> int \<Rightarrow> 'a list list \<Rightarrow> nat list \<Rightarrow> exn + 'm"
  hmm_score :: "'m \<Rightarrow> 'a list list \<Rightarrow> nat list \<Rightarrow> exn + pyfloat"
  kfold_split :: "nat \<Rightarrow> exn + (nat list \<times> nat list) list"
  np_log :: "nat \<Rightarrow> pyfloat"
  np_mean :: "pyfloat list \<Rightarrow> pyfloat"
  fl_mul_int :: "int \<Rightarrow> pyfloat \<Rightarrow> pyfloat"
  fl_add :: "pyfloat \<Rightarrow> pyfloat \<Rightarrow> pyfloat"
  fl_sub :: "pyfloat \<Rightarrow> pyfloat \<Rightarrow> pyfloat"

text \<open>
  \<^verbatim>\<open>model.score(X, lengths)\<close> where \<open>model\<close> may be Python's \<^verbatim>\<open>None\<close> (what
  \<open>base_model\<close> returns after a failed fit): the attribute lookup on \<^verbatim>\<open>None\<close> raises.
\<close>

definition model_score ::
  "('a, 'm) collaborators \<Rightarrow> 'm option \<Rightarrow> 'a list list \<Rightarrow> nat list \<Rightarrow> exn + pyfloat" where
  "model_score env model Xs ls =
     (case model of None \<Rightarrow> Inl AttributeError | Some m \<Rightarrow> hmm_score env m Xs ls)"

section \<open>my_model_selectors.py\<close>

subsection \<open>ModelSelector\<close>

text \<open>
  The fields of a \<^verbatim>\<open>ModelSelector\<close> object.  Python dicts are association lists in
  insertion order.
\<close>

record 'a ModelSelector =
  words :: "(string \<times> 'a list list list) list"
  hwords :: "(string \<times> 'a list list \<times> nat list) list"
  sequences :: "'a list list list"
  X :: "'a list list"
  lengths :: "nat list"
  this_word :: string
  n_constant :: int
  min_n_components :: int
  max_n_components :: int
  random_state :: int
  verbose :: bool

text \<open>
  \<^verbatim>\<open>ModelSelector.__init__\<close>: the two dictionary lookups raise \<^verbatim>\<open>KeyError\<close> for a
  word that is not a key.
\<close>

definition ModelSelector_init ::
  "(string \<times> 'a list list list) list \<Rightarrow> (string \<times> 'a list list \<times> nat list) list \<Rightarrow> string \<Rightarrow>
   int \<Rightarrow> int \<Rightarrow> int \<Rightarrow> int \<Rightarrow> bool \<Rightarrow> exn + 'a ModelSelector" where
  "ModelSelector_init all_word_sequences all_word_Xlengths word nc min_n max_n seed vb =
     (case map_of all_word_sequences word of
        None \<Rightarrow> Inl KeyError
      | Some seqs \<Rightarrow>
          (case map_of all_word_Xlengths word of
             None \<Rightarrow> Inl KeyError
           | Some (Xs, ls) \<Rightarrow>
               Inr \<lparr> words = all_word_sequences, hwords = all_word_Xlengths, sequences = seqs,
                     X = Xs, lengths = ls, this_word = word, n_constant = nc,
                     min_n_components = min_n, max_n_components = max_n,
                     random_state = seed, verbose = vb \<rparr>))"

text \<open>
  The state a method runs in: the object, and a log of the calls made to the fitting
  collaborator (state count, observation matrix, lengths), which is how the number of fitting
  attempts and the data each one saw are observed.  The log is not a field of the source.
\<close>

record 'a state =
  self :: "'a ModelSelector"
  fit_calls :: "(int \<times> 'a list list \<times> nat list) list"

text \<open>
  \<^verbatim>\<open>base_model\<close>: one call of the fitting collaborator on \<^verbatim>\<open>self.X, self.lengths\<close>; the
  bare \<^verbatim>\<open>except:\<close> turns any failure into \<^verbatim>\<open>None\<close>.  The diagnostic printing under
  \<^verbatim>\<open>self.verbose\<close> does not touch the result and is left out.
\<close>

definition base_model ::
  "('a, 'm) collaborators \<Rightarrow> int \<Rightarrow> 'a state \<Rightarrow> (exn + 'm option) \<times> 'a state" where
  "base_model env num_states s =
     (let s' = s\<lparr>fit_calls := fit_calls s @ [(num_states, X (self s), lengths (self s))]\<rparr>
      in case hmm_fit env num_states (random_state (self s)) (X (self s)) (lengths (self s)) of
           Inr hmm_model \<Rightarrow> (Inr (Some hmm_model), s')
         | Inl e \<Rightarrow> (Inr None, s'))"

subsection \<open>SelectorConstant\<close>

definition SelectorConstant_select ::
  "('a, 'm) collaborators \<Rightarrow> 'a state \<Rightarrow> (exn + 'm option) \<times> 'a state" where
  "SelectorConstant_select env s =
     (let best_num_components = n_constant (self s)
      in base_model env best_num_components s)"

subsection \<open>SelectorBIC\<close>

text \<open>
  \<^verbatim>\<open>self.X.shape[1]\<close>, the number of features.  \<^verbatim>\<open>self.X\<close> is the numpy array that the
  dataset code (not among the sources) makes of the list of frames; the array of an empty
  list has one dimension only, and asking for the second raises.
\<close>

definition shape1 :: "'a list list \<Rightarrow> exn + nat" where
  "shape1 Xs = (case Xs of [] \<Rightarrow> Inl IndexError | r # _ \<Rightarrow> Inr (length r))"

definition BIC_score ::
  "('a, 'm) collaborators \<Rightarrow> int \<Rightarrow> 'a state \<Rightarrow> (exn + pyfloat) \<times> 'a state" where
  "BIC_score env n_comp s =
     (case base_model env n_comp s of
        (Inl e, s1) \<Rightarrow> (Inl e, s1)
      | (Inr model, s1) \<Rightarrow>
          (case model_score env model (X (self s1)) (lengths (self s1)) of
             Inl e \<Rightarrow> (Inl e, s1)
           | Inr logL \<Rightarrow>
               (case shape1 (X (self s1)) of
                  Inl e \<Rightarrow> (Inl e, s1)
                | Inr n_features \<Rightarrow>
                    (let logN = np_log env (length (X (self s1)));
                         p = n_comp ^ 2 + 2 * n_comp * int n_features - 1;
                         BIC = fl_add env (fl_mul_int env (- 2) logL) (fl_mul_int env p logN)
                     in (Inr BIC, s1)))))"

text \<open>
  The \<^verbatim>\<open>for\<close> loop of \<^verbatim>\<open>SelectorBIC.select\<close>.  The local \<^verbatim>\<open>best_n\<close> is unbound
  until the first assignment, hence an option.
\<close>

fun BIC_loop ::
  "('a, 'm) collaborators \<Rightarrow> int list \<Rightarrow> pyfloat \<times> int option \<Rightarrow> 'a state \<Rightarrow>
   (exn + pyfloat \<times> int option) \<times> 'a state" where
  "BIC_loop env [] (best_score, best_n) s = (Inr (best_score, best_n), s)"
| "BIC_loop env (n_comp # rest) (best_score, best_n) s =
     (case BIC_score env n_comp s of
        (Inl e, s1) \<Rightarrow> (Inl e, s1)
      | (Inr score, s1) \<Rightarrow>
          (if py_lt score best_score then BIC_loop env rest (score, Some n_comp) s1
           else BIC_loop env rest (best_score, best_n) s1))"

text \<open>The body of the \<^verbatim>\<open>try\<close> block, then the whole method with its \<^verbatim>\<open>except:\<close>.\<close>

definition SelectorBIC_search ::
  "('a, 'm) collaborators \<Rightarrow> 'a state \<Rightarrow> (exn + 'm option) \<times> 'a state" where
  "SelectorBIC_search env s =
     (case BIC_loop env [min_n_components (self s) .. max_n_components (self s)] (PInf, None) s of
        (Inl e, s1) \<Rightarrow> (Inl e, s1)
      | (Inr (best_score, best_n), s1) \<Rightarrow>
          (case best_n of
             None \<Rightarrow> (Inl UnboundLocalError, s1)
           | Some n \<Rightarrow> base_model env n s1))"

definition SelectorBIC_select ::
  "('a, 'm) collaborators \<Rightarrow> 'a state \<Rightarrow> (exn + 'm option) \<times> 'a state" where
  "SelectorBIC_select env s =
     (case SelectorBIC_search env s of
        (Inr r, s1) \<Rightarrow> (Inr r, s1)
      | (Inl e, s1) \<Rightarrow> base_model env (n_constant (self s1)) s1)"

subsection \<open>SelectorDIC\<close>

text \<open>The loop over \<^verbatim>\<open>self.hwords.items()\<close> that fills \<^verbatim>\<open>loganti\<close>.\<close>

fun DIC_loganti ::
  "('a, 'm) collaborators \<Rightarrow> 'm option \<Rightarrow> string \<Rightarrow> (string \<times> 'a list list \<times> nat list) list \<Rightarrow>
   pyfloat list \<Rightarrow> exn + pyfloat list" where
  "DIC_loganti env model w [] loganti = Inr loganti"
| "DIC_loganti env model w ((word, (seq, len)) # rest) loganti =
     (if word \<noteq> w then
        (case model_score env model seq len of
           Inl e \<Rightarrow> Inl e
         | Inr v \<Rightarrow> DIC_loganti env model w rest (loganti @ [v]))
      else DIC_loganti env model w rest loganti)"

definition DIC_score ::
  "('a, 'm) collaborators \<Rightarrow> int \<Rightarrow> 'a state \<Rightarrow> (exn + pyfloat) \<times> 'a state" where
  "DIC_score env n_comp s =
     (case base_model env n_comp s of
        (Inl e, s1) \<Rightarrow> (Inl e, s1)
      | (Inr model, s1) \<Rightarrow>
          (case model_score env model (X (self s1)) (lengths (self s1)) of
             Inl e \<Rightarrow> (Inl e, s1)
           | Inr logL \<Rightarrow>
               (case DIC_loganti env model (this_word (self s1)) (hwords (self s1)) [] of
                  Inl e \<Rightarrow> (Inl e, s1)
                | Inr loganti \<Rightarrow> (Inr (fl_sub env logL (np_mean env loganti)), s1))))"

fun DIC_loop ::
  "('a, 'm) collaborators \<Rightarrow> int list \<Rightarrow> pyfloat \<times> int option \<Rightarrow> 'a state \<Rightarrow>
   (exn + pyfloat \<times> int option) \<times> 'a state" where
  "DIC_loop env [] (best_score, best_n) s = (Inr (best_score, best_n), s)"
| "DIC_loop env (n_comp # rest) (best_score, best_n) s =
     (case DIC_score env n_comp s of
        (Inl e, s1) \<Rightarrow> (Inl e, s1)
      | (Inr score, s1) \<Rightarrow>
          (if py_gt score best_score then DIC_loop env rest (score, Some n_comp) s1
           else DIC_loop env rest (best_score, best_n) s1))"

definition SelectorDIC_search ::
  "('a, 'm) collaborators \<Rightarrow> 'a state \<Rightarrow> (exn + 'm option) \<times> 'a state" where
  "SelectorDIC_search env s =
     (case DIC_loop env [min_n_components (self s) .. max_n_components (self s)] (NInf, None) s of
        (Inl e, s1) \<Rightarrow> (Inl e, s1)
      | (Inr (best_score, best_n), s1) \<Rightarrow>
          (case best_n of
             None \<Rightarrow> (Inl UnboundLocalError, s1)
           | Some n \<Rightarrow> base_model env n s1))"

definition SelectorDIC_select ::
  "('a, 'm) collaborators \<Rightarrow> 'a state \<Rightarrow> (exn + 'm option) \<times> 'a state" where
  "SelectorDIC_select env s =
     (case SelectorDIC_search env s of
        (Inr r, s1) \<Rightarrow> (Inr r, s1)
      | (Inl e, s1) \<Rightarrow> base_model env (n_constant (self s1)) s1)"

subsection \<open>SelectorCV\<close>

text \<open>
  Modelled from the spec: \<^verbatim>\<open>asl_utils.combine_sequences\<close> is not among the sources.  The
  spec's concatenated index of a selection of sequences is the pair of the flattened
  observation matrix and the list of the sequence lengths, in the order of the index list.
  An index outside the sequence list raises, as Python list indexing does.
\<close>

fun combine_sequences :: "nat list \<Rightarrow> 'a list list list \<Rightarrow> exn + 'a list list \<times> nat list" where
  "combine_sequences [] seqs = Inr ([], [])"
| "combine_sequences (i # idx) seqs =
     (if i < length seqs then
        (case combine_sequences idx seqs of
           Inl e \<Rightarrow> Inl e
         | Inr (Xs, ls) \<Rightarrow> Inr (seqs ! i @ Xs, length (seqs ! i) # ls))
      else Inl IndexError)"

text \<open>
  The loop over the folds in \<^verbatim>\<open>CV_score\<close>.  The training fold is stored in
  \<^verbatim>\<open>self.X, self.lengths\<close> (that is where \<open>base_model\<close> reads its data); the test fold
  is held in locals.
\<close>

fun CV_folds ::
  "('a, 'm) collaborators \<Rightarrow> int \<Rightarrow> (nat list \<times> nat list) list \<Rightarrow> pyfloat list \<Rightarrow> 'a state \<Rightarrow>
   (exn + pyfloat list) \<times> 'a state" where
  "CV_folds env n_comp [] scores s = (Inr scores, s)"
| "CV_folds env n_comp ((cv_train_idx, cv_test_idx) # rest) scores s =
     (case combine_sequences cv_train_idx (sequences (self s)) of
        Inl e \<Rightarrow> (Inl e, s)
      | Inr (Xtrain, ltrain) \<Rightarrow>
          (case base_model env n_comp (s\<lparr>self := (self s)\<lparr>X := Xtrain, lengths := ltrain\<rparr>\<rparr>) of
             (Inl e, s1) \<Rightarrow> (Inl e, s1)
           | (Inr model, s1) \<Rightarrow>
               (case combine_sequences cv_test_idx (sequences (self s1)) of
                  Inl e \<Rightarrow> (Inl e, s1)
                | Inr (Xtest, ltest) \<Rightarrow>
                    (case model_score env model Xtest ltest of
                       Inl e \<Rightarrow> (Inl e, s1)
                     | Inr v \<Rightarrow> CV_folds env n_comp rest (scores @ [v]) s1))))"

definition CV_score ::
  "('a, 'm) collaborators \<Rightarrow> int \<Rightarrow> 'a state \<Rightarrow> (exn + pyfloat) \<times> 'a state" where
  "CV_score env n_comp s =
     (case kfold_split env (length (sequences (self s))) of
        Inl e \<Rightarrow> (Inl e, s)
      | Inr folds \<Rightarrow>
          (case CV_folds env n_comp folds [] s of
             (Inl e, s1) \<Rightarrow> (Inl e, s1)
           | (Inr scores, s1) \<Rightarrow> (Inr (np_mean env scores), s1)))"

fun CV_loop ::
  "('a, 'm) collaborators \<Rightarrow> int list \<Rightarrow> pyfloat \<times> int option \<Rightarrow> 'a state \<Rightarrow>
   (exn + pyfloat \<times> int option) \<times> 'a state" where
  "CV_loop env [] (best_score, best_n) s = (Inr (best_score, best_n), s)"
| "CV_loop env (n_comp # rest) (best_score, best_n) s =
     (case CV_score env n_comp s of
        (Inl e, s1) \<Rightarrow> (Inl e, s1)
      | (Inr score, s1) \<Rightarrow>
          (if py_gt score best_score then CV_loop env rest (score, Some n_comp) s1
           else CV_loop env rest (best_score, best_n) s1))"

definition SelectorCV_search ::
  "('a, 'm) collaborators \<Rightarrow> 'a state \<Rightarrow> (exn + 'm option) \<times> 'a state" where
  "SelectorCV_search env s =
     (case CV_loop env [min_n_components (self s) .. max_n_components (self s)] (NInf, None) s of
        (Inl e, s1) \<Rightarrow> (Inl e, s1)
      | (Inr (best_score, best_n), s1) \<Rightarrow>
          (case best_n of
             None \<Rightarrow> (Inl UnboundLocalError, s1)
           | Some n \<Rightarrow> base_model env n s1))"

definition SelectorCV_select ::
  "('a, 'm) collaborators \<Rightarrow> 'a state \<Rightarrow> (exn + 'm option) \<times> 'a state" where
  "SelectorCV_select env s =
     (case SelectorCV_search env s of
        (Inr r, s1) \<Rightarrow> (Inr r, s1)
      | (Inl e, s1) \<Rightarrow> base_model env (n_constant (self s1)) s1)"

section \<open>my_recognizer.py\<close>

text \<open>
  The inner loop over \<^verbatim>\<open>models.items()\<close>.  A value of the mapping may be \<^verbatim>\<open>None\<close>
  (a selector whose fit failed), and the \<^verbatim>\<open>try\<close> around \<^verbatim>\<open>model.score\<close> covers that
  too.  \<^verbatim>\<open>probdict[trained_word] = score\<close> is an update of an insertion-ordered dict.
\<close>

fun recognize_models ::
  "('a, 'm) collaborators \<Rightarrow> (string \<times> 'm option) list \<Rightarrow> 'a list list \<Rightarrow> nat list \<Rightarrow>
   pyfloat \<times> (string \<times> pyfloat) list \<times> string \<Rightarrow> pyfloat \<times> (string \<times> pyfloat) list \<times> string" where
  "recognize_models env [] Xs ls (best_score, probdict, best_guess) =
     (best_score, probdict, best_guess)"
| "recognize_models env ((trained_word, model) # rest) Xs ls (best_score, probdict, best_guess) =
     (let score = (case model_score env model Xs ls of Inr v \<Rightarrow> v | Inl e \<Rightarrow> NInf);
          probdict' = AList.update trained_word score probdict
      in if py_gt score best_score
         then recognize_models env rest Xs ls (score, probdict', trained_word)
         else recognize_models env rest Xs ls (best_score, probdict', best_guess))"

text \<open>The outer loop over \<^verbatim>\<open>test_set.get_all_Xlengths().items()\<close>.\<close>

fun recognize_items ::
  "('a, 'm) collaborators \<Rightarrow> (string \<times> 'm option) list \<Rightarrow> (nat \<times> 'a list list \<times> nat list) list \<Rightarrow>
   (string \<times> pyfloat) list list \<times> string list \<Rightarrow> (string \<times> pyfloat) list list \<times> string list" where
  "recognize_items env models [] (probabilities, guesses) = (probabilities, guesses)"
| "recognize_items env models ((test_word, (Xs, ls)) # rest) (probabilities, guesses) =
     (case recognize_models env models Xs ls (NInf, [], '''') of
        (best_score, probdict, best_guess) \<Rightarrow>
          recognize_items env models rest (probabilities @ [probdict], guesses @ [best_guess]))"

definition recognize ::
  "('a, 'm) collaborators \<Rightarrow> (string \<times> 'm option) list \<Rightarrow> (nat \<times> 'a list list \<times> nat list) list \<Rightarrow>
   (string \<times> pyfloat) list list \<times> string list" where
  "recognize env models test_set = recognize_items env models test_set ([], [])"

section \<open>Notions used to state the properties\<close>

text \<open>
  What \<open>base_model\<close> hands back for a state count on the data of an object: the fitted
  model, or \<^verbatim>\<open>None\<close> when the fit fails.
\<close>

definition fit_at :: "('a, 'm) collaborators \<Rightarrow> int \<Rightarrow> 'a ModelSelector \<Rightarrow> 'm option" where
  "fit_at env n ctx =
     (case hmm_fit env n (random_state ctx) (X ctx) (lengths ctx) of
        Inr m \<Rightarrow> Some m
      | Inl e \<Rightarrow> None)"

text \<open>
  The running best of a scan over scored candidates, as every search loop of the source
  keeps it: the first candidate that is strictly better than all before it wins.
\<close>

fun running_best ::
  "(pyfloat \<Rightarrow> pyfloat \<Rightarrow> bool) \<Rightarrow> pyfloat \<times> 'k option \<Rightarrow> ('k \<times> pyfloat) list \<Rightarrow> pyfloat \<times> 'k option" where
  "running_best better (best_score, best) [] = (best_score, best)"
| "running_best better (best_score, best) ((c, v) # rest) =
     (if better v best_score then running_best better (v, Some c) rest
      else running_best better (best_score, best) rest)"

text \<open>What the proofs need of a strict comparison of floats (\<open>py_lt\<close> and \<open>py_gt\<close> have it).\<close>

definition float_order :: "(pyfloat \<Rightarrow> pyfloat \<Rightarrow> bool) \<Rightarrow> bool" where
  "float_order better \<longleftrightarrow>
     (\<forall>a b c. better a b \<longrightarrow> better b c \<longrightarrow> better a c) \<and>
     (\<forall>b b0 v. better b b0 \<longrightarrow> \<not> better v b0 \<longrightarrow> v \<noteq> NaN \<longrightarrow> better b v) \<and>
     (\<forall>a. \<not> better a a) \<and> (\<forall>a. \<not> better NaN a)"

text \<open>
  The BIC of the spec for a state count \<open>n\<close>: \<open>-2 logL + p log N\<close>, where \<open>logL\<close> is the
  log-likelihood of the model fitted at \<open>n\<close> on its own training data, \<open>N\<close> the number of
  frames, \<open>f\<close> the number of features and \<open>p = n\<^sup>2 + 2 n f - 1\<close>.  It is undefined
  (\<open>None\<close>) when the fit or the scoring fails.
\<close>

definition BIC_spec :: "('a, 'm) collaborators \<Rightarrow> 'a ModelSelector \<Rightarrow> int \<Rightarrow> pyfloat option" where
  "BIC_spec env ctx n =
     (case fit_at env n ctx of
        None \<Rightarrow> None
      | Some m \<Rightarrow>
          (case hmm_score env m (X ctx) (lengths ctx) of
             Inl e \<Rightarrow> None
           | Inr logL \<Rightarrow>
               (case shape1 (X ctx) of
                  Inl e \<Rightarrow> None
                | Inr f \<Rightarrow>
                    Some (fl_add env (fl_mul_int env (- 2) logL)
                            (fl_mul_int env (n ^ 2 + 2 * n * int f - 1)
                               (np_log env (length (X ctx))))))))"

text \<open>The state after fitting calls for the state counts \<open>ns\<close>, in order, on the object's data.\<close>

definition logged :: "'a state \<Rightarrow> int list \<Rightarrow> 'a state" where
  "logged s ns = s\<lparr>fit_calls := fit_calls s @ map (\<lambda>n. (n, X (self s), lengths (self s))) ns\<rparr>"

text \<open>Candidates paired with their scores.\<close>

definition scored :: "(int \<Rightarrow> pyfloat option) \<Rightarrow> int list \<Rightarrow> (int \<times> pyfloat) list" where
  "scored f ns = map (\<lambda>n. (n, the (f n))) ns"

text \<open>The other words of the vocabulary with their concatenated sequences, in dictionary order.\<close>

definition other_words :: "'a ModelSelector \<Rightarrow> (string \<times> 'a list list \<times> nat list) list" where
  "other_words ctx = filter (\<lambda>p. fst p \<noteq> this_word ctx) (hwords ctx)"

text \<open>
  The DIC of the spec for a state count \<open>n\<close>: the log-likelihood of the word's own data under
  the model fitted at \<open>n\<close>, minus the mean of the scores of every other word's concatenated
  sequences under that model.  It is undefined when the fit or one of the scorings fails.
\<close>

definition DIC_spec :: "('a, 'm) collaborators \<Rightarrow> 'a ModelSelector \<Rightarrow> int \<Rightarrow> pyfloat option" where
  "DIC_spec env ctx n =
     (case fit_at env n ctx of
        None \<Rightarrow> None
      | Some m \<Rightarrow>
          (case hmm_score env m (X ctx) (lengths ctx) of
             Inl e \<Rightarrow> None
           | Inr logL \<Rightarrow>
               (let anti = map (\<lambda>p. hmm_score env m (fst (snd p)) (snd (snd p))) (other_words ctx)
                in if list_ex isl anti then None
                   else Some (fl_sub env logL (np_mean env (map projr anti))))))"

text \<open>
  A cell of the score table: the model's score of the item, negative infinity when the
  scoring raises.
\<close>

definition cell :: "('a, 'm) collaborators \<Rightarrow> 'm option \<Rightarrow> 'a list list \<Rightarrow> nat list \<Rightarrow> pyfloat" where
  "cell env model Xs ls = (case model_score env model Xs ls of Inr v \<Rightarrow> v | Inl e \<Rightarrow> NInf)"

text \<open>The row of an item: one cell per entry of the model mapping, in its order.\<close>

definition score_row ::
  "('a, 'm) collaborators \<Rightarrow> (string \<times> 'm option) list \<Rightarrow> 'a list list \<Rightarrow> nat list \<Rightarrow>
   (string \<times> pyfloat) list" where
  "score_row env models Xs ls = map (\<lambda>p. (fst p, cell env (snd p) Xs ls)) models"

text \<open>Two objects that differ at most in \<^verbatim>\<open>X\<close> and \<^verbatim>\<open>lengths\<close>.\<close>

definition same_but_data :: "'a ModelSelector \<Rightarrow> 'a ModelSelector \<Rightarrow> bool" where
  "same_but_data c c' \<longleftrightarrow>
     words c' = words c \<and> hwords c' = hwords c \<and> sequences c' = sequences c \<and>
     this_word c' = this_word c \<and> n_constant c' = n_constant c \<and>
     min_n_components c' = min_n_components c \<and> max_n_components c' = max_n_components c \<and>
     random_state c' = random_state c \<and> verbose c' = verbose c"

subsection \<open>An environment to run the code in\<close>

text \<open>
  Float arithmetic without rounding, with the IEEE rules for infinities and NaN.  It gives
  the examples an environment to compute in; the general theorems below hold for every environment.
\<close>

fun exact_mul_int :: "int \<Rightarrow> pyfloat \<Rightarrow> pyfloat" where
  "exact_mul_int i (Fin x) = Fin (of_int i * x)"
| "exact_mul_int i PInf = (if i = 0 then NaN else if 0 < i then PInf else NInf)"
| "exact_mul_int i NInf = (if i = 0 then NaN else if 0 < i then NInf else PInf)"
| "exact_mul_int i NaN = NaN"

fun exact_add :: "pyfloat \<Rightarrow> pyfloat \<Rightarrow> pyfloat" where
  "exact_add (Fin x) (Fin y) = Fin (x + y)"
| "exact_add NaN b = NaN"
| "exact_add a NaN = NaN"
| "exact_add PInf NInf = NaN"
| "exact_add NInf PInf = NaN"
| "exact_add PInf b = PInf"
| "exact_add NInf b = NInf"
| "exact_add a PInf = PInf"
| "exact_add a NInf = NInf"

definition exact_sub :: "pyfloat \<Rightarrow> pyfloat \<Rightarrow> pyfloat" where
  "exact_sub a b = exact_add a (exact_mul_int (- 1) b)"

text \<open>\<^verbatim>\<open>np.mean\<close> of a list of floats: NaN for the empty list.\<close>

definition exact_mean :: "pyfloat list \<Rightarrow> pyfloat" where
  "exact_mean xs =
     (if xs = [] then NaN
      else case foldl exact_add (Fin 0) xs of
             Fin t \<Rightarrow> Fin (t / real (length xs))
           | v \<Rightarrow> v)"

text \<open>\<^verbatim>\<open>np.log\<close> of a length: minus infinity at \<open>0\<close>.\<close>

definition exact_log :: "nat \<Rightarrow> pyfloat" where
  "exact_log k = (if k = 0 then NInf else Fin (ln (real k)))"

text \<open>
  scikit-learn's unshuffled \<^verbatim>\<open>KFold(n_splits)\<close> on \<open>n_samples\<close> samples, as documented:
  consecutive test folds, the first \<open>n_samples mod n_splits\<close> of them one longer, each paired
  with the remaining indices as training fold; \<^verbatim>\<open>ValueError\<close> when there are fewer samples
  than splits.
\<close>

definition KFold_split :: "nat \<Rightarrow> nat \<Rightarrow> exn + (nat list \<times> nat list) list" where
  "KFold_split n_splits n_samples =
     (if n_splits \<le> 1 \<or> n_samples < n_splits then Inl ValueError
      else Inr (map (\<lambda>i. let start = i * (n_samples div n_splits) + min i (n_samples mod n_splits);
                              stop = start + n_samples div n_splits
                                       + (if i < n_samples mod n_splits then 1 else 0)
                          in (filter (\<lambda>j. \<not> (start \<le> j \<and> j < stop)) [0..<n_samples],
                              [start..<stop]))
                  [0..<n_splits]))"

text \<open>
  A toy fitting collaborator: a model records its state count and the data it was fitted
  on; fitting fails for the state counts in \<open>bad\<close>; \<open>sc\<close> is the scoring function.  Folds are
  those of \<^verbatim>\<open>KFold(3)\<close>.
\<close>

type_synonym toy_model = "int \<times> nat list list \<times> nat list"

definition toy_env ::
  "int list \<Rightarrow> (toy_model \<Rightarrow> nat list list \<Rightarrow> nat list \<Rightarrow> exn + pyfloat) \<Rightarrow>
   (nat, toy_model) collaborators" where
  "toy_env bad sc =
     \<lparr> hmm_fit = (\<lambda>n seed Xs ls. if n \<in> set bad then Inl LibraryError else Inr (n, Xs, ls)),
       hmm_score = sc,
       kfold_split = KFold_split 3,
       np_log = exact_log,
       np_mean = exact_mean,
       fl_mul_int = exact_mul_int,
       fl_add = exact_add,
       fl_sub = exact_sub \<rparr>"

text \<open>A selector for the word FISH, one sequence of one frame with one feature.\<close>

definition toy_selector :: "nat ModelSelector" where
  "toy_selector =
     \<lparr> words = [(''FISH'', [[[1]]]), (''BOOK'', [[[5]]])],
       hwords = [(''FISH'', ([[1]], [1])), (''BOOK'', ([[5]], [1]))],
       sequences = [[[1]]], X = [[1]], lengths = [1], this_word = ''FISH'',
       n_constant = 3, min_n_components = 2, max_n_components = 4,
       random_state = 14, verbose = False \<rparr>"

text \<open>
  Scoring functions for the toy models: the state count, capped at 3 or not, whatever the
  data; and one that gives the capped state count on the data the model was fitted on and
  0 on any other data.
\<close>

definition capped_score :: "toy_model \<Rightarrow> nat list list \<Rightarrow> nat list \<Rightarrow> exn + pyfloat" where
  "capped_score m Xs ls = Inr (Fin (of_int (min (fst m) 3)))"

definition states_score :: "toy_model \<Rightarrow> nat list list \<Rightarrow> nat list \<Rightarrow> exn + pyfloat" where
  "states_score m Xs ls = Inr (Fin (of_int (fst m)))"

definition own_data_score :: "toy_model \<Rightarrow> nat list list \<Rightarrow> nat list \<Rightarrow> exn + pyfloat" where
  "own_data_score m Xs ls = Inr (Fin (if Xs = fst (snd m) then of_int (min (fst m) 3) else 0))"

text \<open>
  A scoring function that raises when the item's frames do not have as many features as the
  data the model was fitted on, and gives the state count otherwise.
\<close>

definition strict_score :: "toy_model \<Rightarrow> nat list list \<Rightarrow> nat list \<Rightarrow> exn + pyfloat" where
  "strict_score m Xs ls =
     (if shape1 Xs = shape1 (fst (snd m)) then Inr (Fin (of_int (fst m))) else Inl ValueError)"

text \<open>Three fitted toy models and two test items, the second with two features per frame.\<close>

definition toy_models :: "(string \<times> toy_model option) list" where
  "toy_models =
     [(''FISH'', Some (3, [[1]], [1])), (''BOOK'', Some (4, [[5]], [1])),
      (''CAT'', Some (4, [[7]], [1]))]"

definition toy_test_set :: "(nat \<times> nat list list \<times> nat list) list" where
  "toy_test_set = [(0, [[1]], [1]), (1, [[1, 2]], [1])]"

text \<open>
  A selector for a word with three sequences of one frame each, as \<open>ModelSelector_init\<close>
  builds it, with the search range 2 to 3.
\<close>

definition toy_cv_selector :: "nat ModelSelector" where
  "toy_cv_selector =
     \<lparr> words = [(''FISH'', [[[1]], [[2]], [[3]]])],
       hwords = [(''FISH'', ([[1], [2], [3]], [1, 1, 1]))],
       sequences = [[[1]], [[2]], [[3]]], X = [[1], [2], [3]], lengths = [1, 1, 1],
       this_word = ''FISH'', n_constant = 3, min_n_components = 2, max_n_components = 3,
       random_state = 14, verbose = False \<rparr>"

text \<open>
  A fitting collaborator that fails when the data has fewer frames than the model is to have
  states, and succeeds otherwise; scores and folds as in \<open>toy_env\<close>.
\<close>

definition toy_frames_env :: "(nat, toy_model) collaborators" where
  "toy_frames_env =
     (toy_env [] states_score)
       \<lparr>hmm_fit := (\<lambda>n seed Xs ls. if int (length Xs) < n then Inl LibraryError
                                   else Inr (n, Xs, ls))\<rparr>"

section \<open>The fitting primitive and SelectorConstant\<close>

lemmas toy_defs = toy_env_def toy_selector_def capped_score_def states_score_def exact_log_def
  fit_at_def BIC_spec_def shape1_def logged_def

lemma base_model_eq:
  "base_model env n s =
     (Inr (fit_at env n (self s)),
      s\<lparr>fit_calls := fit_calls s @ [(n, X (self s), lengths (self s))]\<rparr>)"
  by (simp add: base_model_def fit_at_def Let_def split: sum.splits)

lemma logged_simps [simp]:
  "self (logged s ns) = self s"
  "fit_calls (logged s ns) = fit_calls s @ map (\<lambda>n. (n, X (self s), lengths (self s))) ns"
  "logged s [] = s"
  "logged (logged s ns) ms = logged s (ns @ ms)"
  by (simp_all add: logged_def)

lemma base_model_logged: "base_model env n s = (Inr (fit_at env n (self s)), logged s [n])"
  by (simp add: base_model_eq logged_def)

text \<open>
  Claim C10.  \<open>SelectorConstant.select\<close> returns, without raising, the outcome of one fit at
  \<open>n_constant\<close> states on the object's data: the fitted model, or \<^verbatim>\<open>None\<close> when that fit
  fails.  The log of fitting calls grows by exactly that one call, so there is no retry and
  no second fit, and the object itself is untouched.
\<close>

theorem SelectorConstant_select_single_fit:
  "SelectorConstant_select env s =
     (Inr (case hmm_fit env (n_constant (self s)) (random_state (self s))
                  (X (self s)) (lengths (self s)) of
             Inr m \<Rightarrow> Some m
           | Inl e \<Rightarrow> None),
      s\<lparr>fit_calls := fit_calls s @ [(n_constant (self s), X (self s), lengths (self s))]\<rparr>)"
  by (simp add: SelectorConstant_select_def base_model_def Let_def split: sum.splits)

section \<open>Comparisons and the running best\<close>

lemma py_lt_NaN_right [simp]: "\<not> py_lt a NaN"
  by (cases a) simp_all

lemma py_lt_irrefl [simp]: "\<not> py_lt a a"
  by (cases a) simp_all

lemma py_lt_trans: "py_lt a b \<Longrightarrow> py_lt b c \<Longrightarrow> py_lt a c"
  by (cases a; cases b; cases c) simp_all

lemma py_lt_neg_trans: "py_lt b b0 \<Longrightarrow> \<not> py_lt v b0 \<Longrightarrow> v \<noteq> NaN \<Longrightarrow> py_lt b v"
  by (cases b; cases b0; cases v) simp_all

lemma py_lt_neg_trans2: "py_lt b0 b \<Longrightarrow> \<not> py_lt b0 v \<Longrightarrow> v \<noteq> NaN \<Longrightarrow> py_lt v b"
  by (cases b; cases b0; cases v) simp_all

lemma float_order_lt: "float_order py_lt"
  unfolding float_order_def
proof (intro conjI allI impI)
  fix a b c assume "py_lt a b" "py_lt b c" then show "py_lt a c" by (rule py_lt_trans)
next
  fix b b0 v assume "py_lt b b0" "\<not> py_lt v b0" "v \<noteq> NaN"
  then show "py_lt b v" by (rule py_lt_neg_trans)
qed simp_all

lemma float_order_gt: "float_order py_gt"
  unfolding float_order_def py_gt_def
proof (intro conjI allI impI)
  fix a b c assume "py_lt b a" "py_lt c b" then show "py_lt c a" using py_lt_trans by blast
next
  fix b b0 v assume "py_lt b0 b" "\<not> py_lt b0 v" "v \<noteq> NaN"
  then show "py_lt v b" by (rule py_lt_neg_trans2)
qed simp_all

lemma float_order_trans: "float_order better \<Longrightarrow> better a b \<Longrightarrow> better b c \<Longrightarrow> better a c"
  unfolding float_order_def by blast

lemma float_order_neg_trans:
  "float_order better \<Longrightarrow> better b b0 \<Longrightarrow> \<not> better v b0 \<Longrightarrow> v \<noteq> NaN \<Longrightarrow> better b v"
  unfolding float_order_def by blast

lemma float_order_irrefl: "float_order better \<Longrightarrow> \<not> better a a"
  unfolding float_order_def by blast

lemma float_order_NaN: "float_order better \<Longrightarrow> \<not> better NaN a"
  unfolding float_order_def by blast

lemma float_order_asym: "float_order better \<Longrightarrow> better a b \<Longrightarrow> \<not> better b a"
  using float_order_trans [of better a b a] float_order_irrefl [of better a] by blast

lemma running_best_cases:
  assumes fo: "float_order better"
  shows "running_best better (b0, k0) xs = (b, k) \<Longrightarrow>
     ((\<forall>(c, v) \<in> set xs. \<not> better v b0) \<and> b = b0 \<and> k = k0) \<or>
     (\<exists>pre n post. xs = pre @ (n, b) # post \<and> k = Some n \<and> better b b0 \<and>
        (\<forall>(c, v) \<in> set pre. v = NaN \<or> better b v) \<and>
        (\<forall>(c, v) \<in> set post. \<not> better v b))"
proof (induction xs arbitrary: b0 k0)
  case Nil
  then show ?case by simp
next
  case (Cons x xs)
  obtain c v where x: "x = (c, v)" by (cases x)
  show ?case
  proof (cases "better v b0")
    case True
    with Cons.prems x have rb: "running_best better (v, Some c) xs = (b, k)" by simp
    from Cons.IH [OF rb] show ?thesis
    proof
      assume a: "(\<forall>(c, va) \<in> set xs. \<not> better va v) \<and> b = v \<and> k = Some c"
      then have 1: "x # xs = [] @ (c, b) # xs" using x by simp
      have 2: "\<forall>(c, va) \<in> set xs. \<not> better va b" using a by simp
      have 3: "\<forall>(c, va) \<in> set ([] :: ('a \<times> pyfloat) list). va = NaN \<or> better b va" by simp
      have 4: "better b b0" using a True by simp
      have 5: "k = Some c" using a by simp
      have "\<exists>pre n post. x # xs = pre @ (n, b) # post \<and> k = Some n \<and> better b b0 \<and>
        (\<forall>(c, va) \<in> set pre. va = NaN \<or> better b va) \<and> (\<forall>(c, va) \<in> set post. \<not> better va b)"
        using 1 2 3 4 5 by blast
      then show ?thesis by blast
    next
      assume "\<exists>pre n post. xs = pre @ (n, b) # post \<and> k = Some n \<and> better b v \<and>
        (\<forall>(c, va) \<in> set pre. va = NaN \<or> better b va) \<and> (\<forall>(c, va) \<in> set post. \<not> better va b)"
      then obtain pre n post where d: "xs = pre @ (n, b) # post" "k = Some n" "better b v"
        "\<forall>(c, va) \<in> set pre. va = NaN \<or> better b va" "\<forall>(c, va) \<in> set post. \<not> better va b"
        by blast
      have 1: "x # xs = (x # pre) @ (n, b) # post" using d by simp
      have 2: "better b b0" using float_order_trans [OF fo d(3) True] .
      have 3: "\<forall>(c, va) \<in> set (x # pre). va = NaN \<or> better b va" using d(3,4) x by simp
      have "\<exists>pre n post. x # xs = pre @ (n, b) # post \<and> k = Some n \<and> better b b0 \<and>
        (\<forall>(c, va) \<in> set pre. va = NaN \<or> better b va) \<and> (\<forall>(c, va) \<in> set post. \<not> better va b)"
        using 1 2 3 d(2,5) by blast
      then show ?thesis by blast
    qed
  next
    case False
    with Cons.prems x have rb: "running_best better (b0, k0) xs = (b, k)" by simp
    from Cons.IH [OF rb] show ?thesis
    proof
      assume a: "(\<forall>(c, va) \<in> set xs. \<not> better va b0) \<and> b = b0 \<and> k = k0"
      then show ?thesis using False x by simp
    next
      assume "\<exists>pre n post. xs = pre @ (n, b) # post \<and> k = Some n \<and> better b b0 \<and>
        (\<forall>(c, va) \<in> set pre. va = NaN \<or> better b va) \<and> (\<forall>(c, va) \<in> set post. \<not> better va b)"
      then obtain pre n post where d: "xs = pre @ (n, b) # post" "k = Some n" "better b b0"
        "\<forall>(c, va) \<in> set pre. va = NaN \<or> better b va" "\<forall>(c, va) \<in> set post. \<not> better va b"
        by blast
      have 1: "x # xs = (x # pre) @ (n, b) # post" using d by simp
      have "v = NaN \<or> better b v" using float_order_neg_trans [OF fo d(3) False] by blast
      then have 3: "\<forall>(c, va) \<in> set (x # pre). va = NaN \<or> better b va" using d(4) x by simp
      have "\<exists>pre n post. x # xs = pre @ (n, b) # post \<and> k = Some n \<and> better b b0 \<and>
        (\<forall>(c, va) \<in> set pre. va = NaN \<or> better b va) \<and> (\<forall>(c, va) \<in> set post. \<not> better va b)"
        using 1 3 d(2,3,5) by blast
      then show ?thesis by blast
    qed
  qed
qed

lemma running_best_none:
  "\<forall>n \<in> set ns. \<not> better (the (f n)) b0 \<Longrightarrow>
   running_best better (b0, k0) (scored f ns) = (b0, k0)"
  by (induction ns) (simp_all add: scored_def)

lemma running_best_no_better:
  "\<forall>c \<in> set xs. \<not> better (snd c) b \<Longrightarrow> running_best better (b, k) xs = (b, k)"
  by (induction xs) auto

lemma running_best_scored:
  assumes rb: "running_best better (b0, k0) (scored f ns) = (b, k)"
    and fo: "float_order better"
  shows "((\<forall>j \<in> set ns. \<not> better (the (f j)) b0) \<and> b = b0 \<and> k = k0) \<or>
     (\<exists>pre n post. ns = pre @ n # post \<and> k = Some n \<and> b = the (f n) \<and> better b b0 \<and>
        (\<forall>j \<in> set pre. the (f j) = NaN \<or> better b (the (f j))) \<and>
        (\<forall>j \<in> set post. \<not> better (the (f j)) b))"
proof -
  from running_best_cases [OF fo rb]
  show ?thesis
  proof
    assume "(\<forall>(c, v) \<in> set (scored f ns). \<not> better v b0) \<and> b = b0 \<and> k = k0"
    then show ?thesis by (auto simp: scored_def)
  next
    assume "\<exists>pre n post. scored f ns = pre @ (n, b) # post \<and> k = Some n \<and> better b b0 \<and>
        (\<forall>(c, v) \<in> set pre. v = NaN \<or> better b v) \<and> (\<forall>(c, v) \<in> set post. \<not> better v b)"
    then obtain pre' n post' where d: "scored f ns = pre' @ (n, b) # post'" "k = Some n"
      "better b b0" "\<forall>(c, v) \<in> set pre'. v = NaN \<or> better b v"
      "\<forall>(c, v) \<in> set post'. \<not> better v b"
      by blast
    from d(1) obtain pre rest where p: "ns = pre @ rest" "pre' = scored f pre"
      "(n, b) # post' = scored f rest"
      unfolding scored_def by (auto simp: map_eq_append_conv)
    from p(3) obtain post where q: "rest = n # post" "b = the (f n)" "post' = scored f post"
      unfolding scored_def by (auto simp: Cons_eq_map_conv)
    have 1: "ns = pre @ n # post" using p(1) q(1) by simp
    have 2: "\<forall>j \<in> set pre. the (f j) = NaN \<or> better b (the (f j))"
      using d(4) p(2) by (auto simp: scored_def)
    have 3: "\<forall>j \<in> set post. \<not> better (the (f j)) b"
      using d(5) q(3) by (auto simp: scored_def)
    have "\<exists>pre n post. ns = pre @ n # post \<and> k = Some n \<and> b = the (f n) \<and> better b b0 \<and>
        (\<forall>j \<in> set pre. the (f j) = NaN \<or> better b (the (f j))) \<and>
        (\<forall>j \<in> set post. \<not> better (the (f j)) b)"
      using 1 2 3 d(2,3) q(2) by blast
    then show ?thesis by blast
  qed
qed

lemma upto_split_sets:
  assumes "[lo..hi] = pre @ n # post"
  shows "lo \<le> n \<and> n \<le> hi \<and> set pre = {lo..<n} \<and> set post = {n<..hi}"
proof -
  have s: "sorted (pre @ n # post)" and d: "distinct (pre @ n # post)"
    using assms [symmetric] by simp_all
  have u: "set pre \<union> {n} \<union> set post = {lo..hi}"
    using arg_cong [OF assms, of set] by auto
  have a: "\<forall>x \<in> set pre. x < n" using s d by (auto simp: sorted_append less_le)
  have b: "\<forall>x \<in> set post. n < x" using s d by (auto simp: sorted_append less_le)
  have n: "n \<in> {lo..hi}" using u by blast
  have "set pre = {lo..<n}" using u a b n by (auto; force)
  moreover have "set post = {n<..hi}" using u a b n by (auto; force)
  ultimately show ?thesis using n by simp
qed

lemma first_best_upto:
  assumes rb: "running_best better (b0, None) (scored f [lo..hi]) = (b, Some n)"
    and fo: "float_order better"
  shows "lo \<le> n \<and> n \<le> hi \<and> b = the (f n) \<and> better b b0 \<and>
     (\<forall>j \<in> {lo..hi}. \<not> better (the (f j)) b) \<and>
     (\<forall>j \<in> {lo..<n}. the (f j) = NaN \<or> better b (the (f j)))"
proof -
  from running_best_scored [OF rb fo]
  obtain pre post where d: "[lo..hi] = pre @ n # post" "b = the (f n)" "better b b0"
    "\<forall>j \<in> set pre. the (f j) = NaN \<or> better b (the (f j))"
    "\<forall>j \<in> set post. \<not> better (the (f j)) b"
    by auto
  from upto_split_sets [OF d(1)]
  have r: "lo \<le> n" "n \<le> hi" "set pre = {lo..<n}" "set post = {n<..hi}" by simp_all
  have pre: "\<forall>j \<in> {lo..<n}. the (f j) = NaN \<or> better b (the (f j))"
    using d(4) r(3) by simp
  have all: "\<forall>j \<in> {lo..hi}. \<not> better (the (f j)) b"
  proof
    fix j assume j: "j \<in> {lo..hi}"
    consider "j < n" | "j = n" | "n < j" by linarith
    then show "\<not> better (the (f j)) b"
    proof cases
      case 1
      then have "the (f j) = NaN \<or> better b (the (f j))" using pre j by simp
      then show ?thesis using float_order_NaN [OF fo] float_order_asym [OF fo] by metis
    next
      case 2
      then show ?thesis using d(2) float_order_irrefl [OF fo] by simp
    next
      case 3
      then have "j \<in> set post" using r(4) j by simp
      then show ?thesis using d(5) by blast
    qed
  qed
  show ?thesis using r(1,2) d(2,3) all pre by blast
qed

lemma first_failure:
  assumes "\<exists>k \<in> set ns. f k = None"
  shows "\<exists>pre k post. ns = pre @ k # post \<and> (\<forall>j \<in> set pre. f j \<noteq> None) \<and> f k = None"
  using split_list_first_prop [OF assms] by blast

lemma undefined_or_all:
  "(\<exists>k \<in> R. f k = None) \<or> (\<forall>k \<in> R. \<not> P (the (f k))) \<longleftrightarrow>
   (\<exists>k \<in> R. f k = None) \<or> (\<forall>k \<in> R. \<forall>v. f k = Some v \<longrightarrow> \<not> P v)"
proof (cases "\<exists>k \<in> R. f k = None")
  case True
  then show ?thesis by simp
next
  case False
  then have "\<forall>k \<in> R. \<exists>v. f k = Some v" by auto
  then have "(\<forall>k \<in> R. \<not> P (the (f k))) \<longleftrightarrow> (\<forall>k \<in> R. \<forall>v. f k = Some v \<longrightarrow> \<not> P v)"
    by (metis option.sel)
  then show ?thesis by simp
qed

section \<open>SelectorBIC: the search\<close>

lemma BIC_score_Some:
  "BIC_spec env (self s) n = Some v \<Longrightarrow> BIC_score env n s = (Inr v, logged s [n])"
  by (auto simp: BIC_score_def BIC_spec_def base_model_logged model_score_def Let_def
           split: option.splits sum.splits)

lemma BIC_score_None:
  "BIC_spec env (self s) n = None \<Longrightarrow> \<exists>e. BIC_score env n s = (Inl e, logged s [n])"
  by (auto simp: BIC_score_def BIC_spec_def base_model_logged model_score_def Let_def
           split: option.splits sum.splits)

lemma BIC_loop_ok:
  "\<forall>n \<in> set ns. BIC_spec env (self s) n \<noteq> None \<Longrightarrow>
   BIC_loop env ns acc s =
     (Inr (running_best py_lt acc (scored (BIC_spec env (self s)) ns)), logged s ns)"
proof (induction ns arbitrary: acc s)
  case Nil
  show ?case by (cases acc) (simp add: scored_def)
next
  case (Cons n ns)
  obtain b k where acc: "acc = (b, k)" by (cases acc)
  from Cons.prems obtain v where v: "BIC_spec env (self s) n = Some v" by auto
  have rest: "\<forall>j \<in> set ns. BIC_spec env (self (logged s [n])) j \<noteq> None"
    using Cons.prems by simp
  show ?case
    using Cons.IH [OF rest] v
    by (simp add: acc BIC_score_Some scored_def)
qed

lemma BIC_loop_fail:
  "\<forall>n \<in> set pre. BIC_spec env (self s) n \<noteq> None \<Longrightarrow> BIC_spec env (self s) k = None \<Longrightarrow>
   \<exists>e. BIC_loop env (pre @ k # post) acc s = (Inl e, logged s (pre @ [k]))"
proof (induction pre arbitrary: acc s)
  case Nil
  obtain b j where acc: "acc = (b, j)" by (cases acc)
  from BIC_score_None [OF Nil(2)] show ?case by (auto simp: acc)
next
  case (Cons n pre)
  obtain b j where acc: "acc = (b, j)" by (cases acc)
  from Cons.prems obtain v where v: "BIC_spec env (self s) n = Some v" by auto
  have 1: "\<forall>j \<in> set pre. BIC_spec env (self (logged s [n])) j \<noteq> None"
    using Cons.prems by simp
  have 2: "BIC_spec env (self (logged s [n])) k = None" using Cons.prems by simp
  from Cons.IH [OF 1 2] show ?case
    by (simp add: acc BIC_score_Some [OF v])
qed

lemma BIC_spec_Some_fit:
  "BIC_spec env ctx n = Some v \<Longrightarrow>
   \<exists>m. hmm_fit env n (random_state ctx) (X ctx) (lengths ctx) = Inr m \<and> fit_at env n ctx = Some m"
  by (auto simp: BIC_spec_def fit_at_def split: option.splits sum.splits)

lemma BIC_spec_Some_formula:
  "BIC_spec env ctx n = Some v \<Longrightarrow>
   hmm_fit env n (random_state ctx) (X ctx) (lengths ctx) = Inr m \<Longrightarrow>
   \<exists>logL f. hmm_score env m (X ctx) (lengths ctx) = Inr logL \<and> shape1 (X ctx) = Inr f \<and>
     v = fl_add env (fl_mul_int env (- 2) logL)
           (fl_mul_int env (n ^ 2 + 2 * n * int f - 1) (np_log env (length (X ctx))))"
  by (auto simp: BIC_spec_def fit_at_def split: option.splits sum.splits)

lemma SelectorBIC_search_ok:
  assumes "\<forall>k \<in> set [min_n_components (self s) .. max_n_components (self s)].
             BIC_spec env (self s) k \<noteq> None"
  shows "SelectorBIC_search env s =
     (case running_best py_lt (PInf, None)
             (scored (BIC_spec env (self s))
                [min_n_components (self s) .. max_n_components (self s)]) of
        (b, None) \<Rightarrow>
          (Inl UnboundLocalError, logged s [min_n_components (self s) .. max_n_components (self s)])
      | (b, Some n) \<Rightarrow>
          (Inr (fit_at env n (self s)),
           logged s ([min_n_components (self s) .. max_n_components (self s)] @ [n])))"
  unfolding SelectorBIC_search_def BIC_loop_ok [OF assms]
  by (simp add: base_model_logged split: prod.splits option.splits)

lemma SelectorBIC_search_fail:
  assumes "[min_n_components (self s) .. max_n_components (self s)] = pre @ k # post"
    and "\<forall>j \<in> set pre. BIC_spec env (self s) j \<noteq> None"
    and "BIC_spec env (self s) k = None"
  shows "\<exists>e. SelectorBIC_search env s = (Inl e, logged s (pre @ [k]))"
proof -
  from BIC_loop_fail [OF assms(2,3), of post "(PInf, None)"]
  obtain e where "BIC_loop env (pre @ k # post) (PInf, None) s = (Inl e, logged s (pre @ [k]))"
    by blast
  then show ?thesis by (simp add: SelectorBIC_search_def assms(1))
qed

lemma SelectorBIC_search_Inr_all_ok:
  assumes "SelectorBIC_search env s = (Inr r, s')"
  shows "\<forall>k \<in> set [min_n_components (self s) .. max_n_components (self s)].
           BIC_spec env (self s) k \<noteq> None"
proof (rule ccontr)
  assume "\<not> ?thesis"
  then have "\<exists>k \<in> set [min_n_components (self s) .. max_n_components (self s)].
               BIC_spec env (self s) k = None" by simp
  from first_failure [OF this] obtain pre k post where
    d: "[min_n_components (self s) .. max_n_components (self s)] = pre @ k # post"
       "\<forall>j \<in> set pre. BIC_spec env (self s) j \<noteq> None" "BIC_spec env (self s) k = None"
    by blast
  from SelectorBIC_search_fail [OF d] assms show False by auto
qed

lemma SelectorBIC_search_Inr_fitted:
  assumes "SelectorBIC_search env s = (Inr r, s')"
  shows "\<exists>m. r = Some m"
proof -
  let ?lo = "min_n_components (self s)" and ?hi = "max_n_components (self s)"
  let ?f = "BIC_spec env (self s)"
  have ok: "\<forall>k \<in> set [?lo .. ?hi]. ?f k \<noteq> None"
    by (rule SelectorBIC_search_Inr_all_ok [OF assms])
  obtain b kk where rb: "running_best py_lt (PInf, None) (scored ?f [?lo .. ?hi]) = (b, kk)"
    by (cases "running_best py_lt (PInf, None) (scored ?f [?lo .. ?hi])")
  from assms obtain n where kk: "kk = Some n" and r: "r = fit_at env n (self s)"
    unfolding SelectorBIC_search_ok [OF ok] rb by (cases kk) auto
  from first_best_upto [OF rb [unfolded kk] float_order_lt] have "?lo \<le> n" "n \<le> ?hi"
    by blast+
  then have "?f n \<noteq> None" using ok by simp
  then obtain v where "?f n = Some v" by auto
  from BIC_spec_Some_fit [OF this] r show ?thesis by auto
qed

lemma SelectorBIC_search_self: "self (snd (SelectorBIC_search env s)) = self s"
proof (cases "\<exists>k \<in> set [min_n_components (self s) .. max_n_components (self s)].
                BIC_spec env (self s) k = None")
  case True
  from first_failure [OF True] obtain pre k post where
    d: "[min_n_components (self s) .. max_n_components (self s)] = pre @ k # post"
       "\<forall>j \<in> set pre. BIC_spec env (self s) j \<noteq> None" "BIC_spec env (self s) k = None"
    by blast
  from SelectorBIC_search_fail [OF d] show ?thesis by auto
next
  case False
  then have ok: "\<forall>k \<in> set [min_n_components (self s) .. max_n_components (self s)].
      BIC_spec env (self s) k \<noteq> None" by simp
  show ?thesis unfolding SelectorBIC_search_ok [OF ok]
    by (simp split: prod.splits option.splits)
qed

lemma SelectorBIC_select_self: "self (snd (SelectorBIC_select env s)) = self s"
proof -
  obtain x s1 where c: "SelectorBIC_search env s = (x, s1)" by (cases "SelectorBIC_search env s")
  have "self s1 = self s" using SelectorBIC_search_self [of env s] c by simp
  then show ?thesis using c
    by (simp add: SelectorBIC_select_def base_model_logged split: sum.splits)
qed

text \<open>
  Claim C5.  When the search of \<open>SelectorBIC.select\<close> completes (the non-fallback path), the
  method returns the model fitted at a state count \<open>n\<close> of the range whose BIC, computed as
  \<open>-2 logL + p log N\<close> with \<open>p = n\<^sup>2 + 2 n f - 1\<close>, no candidate of the range undercuts; every
  candidate below \<open>n\<close> has a strictly larger BIC (or NaN), so on ties the smallest state
  count is the one chosen.
\<close>

theorem SelectorBIC_search_minimises_BIC:
  assumes "SelectorBIC_search env s = (Inr r, s')"
  shows "SelectorBIC_select env s = (Inr r, s') \<and>
   (\<exists>n m logL f bic.
     min_n_components (self s) \<le> n \<and> n \<le> max_n_components (self s) \<and>
     hmm_fit env n (random_state (self s)) (X (self s)) (lengths (self s)) = Inr m \<and>
     r = Some m \<and>
     hmm_score env m (X (self s)) (lengths (self s)) = Inr logL \<and>
     shape1 (X (self s)) = Inr f \<and>
     bic = fl_add env (fl_mul_int env (- 2) logL)
             (fl_mul_int env (n ^ 2 + 2 * n * int f - 1) (np_log env (length (X (self s))))) \<and>
     BIC_spec env (self s) n = Some bic \<and>
     (\<forall>k \<in> {min_n_components (self s) .. max_n_components (self s)}.
        \<exists>v. BIC_spec env (self s) k = Some v \<and> \<not> py_lt v bic \<and>
            (k < n \<longrightarrow> v = NaN \<or> py_lt bic v)))"
proof -
  let ?lo = "min_n_components (self s)" and ?hi = "max_n_components (self s)"
  let ?f = "BIC_spec env (self s)"
  have ok: "\<forall>k \<in> set [?lo .. ?hi]. ?f k \<noteq> None"
    by (rule SelectorBIC_search_Inr_all_ok [OF assms])
  obtain b kk where rb: "running_best py_lt (PInf, None) (scored ?f [?lo .. ?hi]) = (b, kk)"
    by (cases "running_best py_lt (PInf, None) (scored ?f [?lo .. ?hi])")
  from assms obtain n where kk: "kk = Some n" and r: "r = fit_at env n (self s)"
    unfolding SelectorBIC_search_ok [OF ok] rb by (cases kk) auto
  from first_best_upto [OF rb [unfolded kk] float_order_lt]
  have fb: "?lo \<le> n" "n \<le> ?hi" "b = the (?f n)"
    "\<forall>j \<in> {?lo .. ?hi}. \<not> py_lt (the (?f j)) b"
    "\<forall>j \<in> {?lo ..< n}. the (?f j) = NaN \<or> py_lt b (the (?f j))"
    by blast+
  have "?f n \<noteq> None" using ok fb(1,2) by simp
  then have fn: "?f n = Some b" using fb(3) by auto
  from BIC_spec_Some_fit [OF fn] obtain m where
    m: "hmm_fit env n (random_state (self s)) (X (self s)) (lengths (self s)) = Inr m"
       "fit_at env n (self s) = Some m" by blast
  from BIC_spec_Some_formula [OF fn m(1)] obtain logL f where
    fm: "hmm_score env m (X (self s)) (lengths (self s)) = Inr logL" "shape1 (X (self s)) = Inr f"
      "b = fl_add env (fl_mul_int env (- 2) logL)
             (fl_mul_int env (n ^ 2 + 2 * n * int f - 1) (np_log env (length (X (self s)))))"
    by blast
  have all: "\<forall>k \<in> {?lo .. ?hi}. \<exists>v. ?f k = Some v \<and> \<not> py_lt v b \<and> (k < n \<longrightarrow> v = NaN \<or> py_lt b v)"
  proof
    fix k assume k: "k \<in> {?lo .. ?hi}"
    then have "?f k \<noteq> None" using ok by simp
    then obtain v where v: "?f k = Some v" by auto
    have 1: "\<not> py_lt v b" using fb(4) k v by force
    have 2: "k < n \<longrightarrow> v = NaN \<or> py_lt b v" using fb(5) k v by force
    show "\<exists>v. ?f k = Some v \<and> \<not> py_lt v b \<and> (k < n \<longrightarrow> v = NaN \<or> py_lt b v)"
      using v 1 2 by blast
  qed
  have sel: "SelectorBIC_select env s = (Inr r, s')"
    using assms by (simp add: SelectorBIC_select_def)
  have "\<exists>n m logL f bic.
     min_n_components (self s) \<le> n \<and> n \<le> max_n_components (self s) \<and>
     hmm_fit env n (random_state (self s)) (X (self s)) (lengths (self s)) = Inr m \<and>
     r = Some m \<and>
     hmm_score env m (X (self s)) (lengths (self s)) = Inr logL \<and>
     shape1 (X (self s)) = Inr f \<and>
     bic = fl_add env (fl_mul_int env (- 2) logL)
             (fl_mul_int env (n ^ 2 + 2 * n * int f - 1) (np_log env (length (X (self s))))) \<and>
     BIC_spec env (self s) n = Some bic \<and>
     (\<forall>k \<in> {min_n_components (self s) .. max_n_components (self s)}.
        \<exists>v. BIC_spec env (self s) k = Some v \<and> \<not> py_lt v bic \<and>
            (k < n \<longrightarrow> v = NaN \<or> py_lt bic v))"
    using fb(1,2) m r fm fn all by blast
  with sel show ?thesis by simp
qed

lemma toy_BIC_capped:
  "SelectorBIC_search (toy_env [] capped_score) \<lparr>self = toy_selector, fit_calls = []\<rparr> =
     (Inr (Some (3, [[1]], [1])),
      \<lparr>self = toy_selector,
       fit_calls = [(2, [[1]], [1]), (3, [[1]], [1]), (4, [[1]], [1]), (3, [[1]], [1])]\<rparr>)"
  by (simp add: SelectorBIC_search_def BIC_score_def base_model_def model_score_def shape1_def
      toy_env_def toy_selector_def capped_score_def exact_log_def Let_def)

text \<open>
  An instance: with BIC \<open>-4\<close>, \<open>-6\<close>, \<open>-6\<close> at 2, 3 and 4 states the search returns the model
  with 3 states, the smaller of the two tied minima.
\<close>

theorem SelectorBIC_search_minimises_BIC_witness:
  "SelectorBIC_search (toy_env [] capped_score) \<lparr>self = toy_selector, fit_calls = []\<rparr> =
     (Inr (Some (3, [[1]], [1])),
      \<lparr>self = toy_selector,
       fit_calls = [(2, [[1]], [1]), (3, [[1]], [1]), (4, [[1]], [1]), (3, [[1]], [1])]\<rparr>) \<and>
   BIC_spec (toy_env [] capped_score) toy_selector 3 = Some (Fin (- 6)) \<and>
   BIC_spec (toy_env [] capped_score) toy_selector 4 = Some (Fin (- 6)) \<and>
   SelectorBIC_select (toy_env [] capped_score) \<lparr>self = toy_selector, fit_calls = []\<rparr> =
     (Inr (Some (3, [[1]], [1])),
      \<lparr>self = toy_selector,
       fit_calls = [(2, [[1]], [1]), (3, [[1]], [1]), (4, [[1]], [1]), (3, [[1]], [1])]\<rparr>) \<and>
   (\<exists>n m logL f bic.
     min_n_components toy_selector \<le> n \<and> n \<le> max_n_components toy_selector \<and>
     hmm_fit (toy_env [] capped_score) n (random_state toy_selector) (X toy_selector)
       (lengths toy_selector) = Inr m \<and>
     Some (3, [[1]], [1]) = Some m \<and>
     hmm_score (toy_env [] capped_score) m (X toy_selector) (lengths toy_selector) = Inr logL \<and>
     shape1 (X toy_selector) = Inr f \<and>
     bic = fl_add (toy_env [] capped_score) (fl_mul_int (toy_env [] capped_score) (- 2) logL)
             (fl_mul_int (toy_env [] capped_score) (n ^ 2 + 2 * n * int f - 1)
                (np_log (toy_env [] capped_score) (length (X toy_selector)))) \<and>
     BIC_spec (toy_env [] capped_score) toy_selector n = Some bic \<and>
     (\<forall>k \<in> {min_n_components toy_selector .. max_n_components toy_selector}.
        \<exists>v. BIC_spec (toy_env [] capped_score) toy_selector k = Some v \<and> \<not> py_lt v bic \<and>
            (k < n \<longrightarrow> v = NaN \<or> py_lt bic v)))"
proof -
  have h: "SelectorBIC_search (toy_env [] capped_score) \<lparr>self = toy_selector, fit_calls = []\<rparr> =
     (Inr (Some (3, [[1]], [1])),
      \<lparr>self = toy_selector,
       fit_calls = [(2, [[1]], [1]), (3, [[1]], [1]), (4, [[1]], [1]), (3, [[1]], [1])]\<rparr>)"
    by (rule toy_BIC_capped)
  have b: "BIC_spec (toy_env [] capped_score) toy_selector 3 = Some (Fin (- 6))"
    "BIC_spec (toy_env [] capped_score) toy_selector 4 = Some (Fin (- 6))"
    by (simp_all add: toy_defs)
  from SelectorBIC_search_minimises_BIC [OF h] h b show ?thesis by simp
qed

section \<open>SelectorBIC: failures\<close>

lemma SelectorBIC_select_fail:
  assumes "[min_n_components (self s) .. max_n_components (self s)] = pre @ k # post"
    and "\<forall>j \<in> set pre. BIC_spec env (self s) j \<noteq> None"
    and "BIC_spec env (self s) k = None"
  shows "SelectorBIC_select env s =
     (Inr (fit_at env (n_constant (self s)) (self s)), logged s (pre @ [k, n_constant (self s)]))"
proof -
  from SelectorBIC_search_fail [OF assms] obtain e where
    "SelectorBIC_search env s = (Inl e, logged s (pre @ [k]))" by blast
  then show ?thesis by (simp add: SelectorBIC_select_def base_model_logged)
qed

lemma SelectorBIC_search_raises_iff:
  "(\<exists>e s1. SelectorBIC_search env s = (Inl e, s1)) \<longleftrightarrow>
     (\<exists>k \<in> {min_n_components (self s) .. max_n_components (self s)}. BIC_spec env (self s) k = None) \<or>
     (\<forall>k \<in> {min_n_components (self s) .. max_n_components (self s)}.
        \<not> py_lt (the (BIC_spec env (self s) k)) PInf)"
proof -
  let ?lo = "min_n_components (self s)" and ?hi = "max_n_components (self s)"
  let ?f = "BIC_spec env (self s)"
  show ?thesis
  proof (cases "\<exists>k \<in> set [?lo .. ?hi]. ?f k = None")
    case True
    from first_failure [OF True] obtain pre k post where
      d: "[?lo .. ?hi] = pre @ k # post" "\<forall>j \<in> set pre. ?f j \<noteq> None" "?f k = None" by blast
    from SelectorBIC_search_fail [OF d] True show ?thesis by auto
  next
    case False
    then have ok: "\<forall>k \<in> set [?lo .. ?hi]. ?f k \<noteq> None" by simp
    obtain b kk where rb: "running_best py_lt (PInf, None) (scored ?f [?lo .. ?hi]) = (b, kk)"
      by (cases "running_best py_lt (PInf, None) (scored ?f [?lo .. ?hi])")
    show ?thesis
    proof (cases "\<forall>k \<in> set [?lo .. ?hi]. \<not> py_lt (the (?f k)) PInf")
      case True
      from running_best_none [of "[?lo .. ?hi]" py_lt ?f PInf None, OF True]
      have "SelectorBIC_search env s = (Inl UnboundLocalError, logged s [?lo .. ?hi])"
        unfolding SelectorBIC_search_ok [OF ok] by simp
      then show ?thesis using True by auto
    next
      case nb: False
      have "kk \<noteq> None"
      proof
        assume "kk = None"
        with running_best_scored [OF rb float_order_lt] nb show False by auto
      qed
      then obtain n where "kk = Some n" by auto
      then have "SelectorBIC_search env s =
          (Inr (fit_at env n (self s)), logged s ([?lo .. ?hi] @ [n]))"
        unfolding SelectorBIC_search_ok [OF ok] rb by simp
      then show ?thesis using nb False by auto
    qed
  qed
qed

text \<open>
  Claim C3, as the code has it.  A candidate whose fit fails or whose scoring raises never
  becomes the running best, but it is not skipped either: it ends the search.  If \<open>k\<close> is
  the first failing state count of the range, the fitting calls made are those for the
  candidates up to \<open>k\<close> and then the one at \<open>n_constant\<close>, whose outcome is returned; no later
  candidate is tried.  The search raises, and \<open>select\<close> falls back, exactly when some
  candidate of the range fails or no candidate has a BIC below plus infinity (an empty
  range included).
\<close>

theorem SelectorBIC_failure_aborts_search:
  "(min_n_components (self s) \<le> k \<and> k \<le> max_n_components (self s) \<and>
    (\<forall>j \<in> {min_n_components (self s) ..< k}. BIC_spec env (self s) j \<noteq> None) \<and>
    BIC_spec env (self s) k = None \<longrightarrow>
    SelectorBIC_select env s =
      (Inr (fit_at env (n_constant (self s)) (self s)),
       logged s ([min_n_components (self s) .. k] @ [n_constant (self s)]))) \<and>
   ((\<exists>e s1. SelectorBIC_search env s = (Inl e, s1)) \<longleftrightarrow>
     (\<exists>k \<in> {min_n_components (self s) .. max_n_components (self s)}. BIC_spec env (self s) k = None) \<or>
     (\<forall>k \<in> {min_n_components (self s) .. max_n_components (self s)}.
        \<forall>v. BIC_spec env (self s) k = Some v \<longrightarrow> \<not> py_lt v PInf))"
proof (intro conjI impI)
  let ?lo = "min_n_components (self s)" and ?hi = "max_n_components (self s)"
  assume a: "?lo \<le> k \<and> k \<le> ?hi \<and> (\<forall>j \<in> {?lo ..< k}. BIC_spec env (self s) j \<noteq> None) \<and>
    BIC_spec env (self s) k = None"
  then have 1: "[?lo .. ?hi] = [?lo .. k - 1] @ k # [k + 1 .. ?hi]" by (simp add: upto_split3)
  have 2: "\<forall>j \<in> set [?lo .. k - 1]. BIC_spec env (self s) j \<noteq> None" using a by simp
  have 3: "[?lo .. k - 1] @ [k, n_constant (self s)] = [?lo .. k] @ [n_constant (self s)]"
    using a by (simp add: upto_rec2)
  from SelectorBIC_select_fail [OF 1 2] a 3
  show "SelectorBIC_select env s =
      (Inr (fit_at env (n_constant (self s)) (self s)), logged s ([?lo .. k] @ [n_constant (self s)]))"
    by simp
next
  show "(\<exists>e s1. SelectorBIC_search env s = (Inl e, s1)) \<longleftrightarrow>
     (\<exists>k \<in> {min_n_components (self s) .. max_n_components (self s)}. BIC_spec env (self s) k = None) \<or>
     (\<forall>k \<in> {min_n_components (self s) .. max_n_components (self s)}.
        \<forall>v. BIC_spec env (self s) k = Some v \<longrightarrow> \<not> py_lt v PInf)"
    unfolding SelectorBIC_search_raises_iff
    by (rule undefined_or_all [of _ _ "\<lambda>v. py_lt v PInf"])
qed

text \<open>
  An instance where the second candidate fails: the calls are those for 2 and 3 states and the
  fallback at 5; the candidate with 4 states, whose BIC would have been the lowest, is never
  fitted.
\<close>

theorem SelectorBIC_failure_aborts_search_witness:
  "BIC_spec (toy_env [3] states_score) (toy_selector\<lparr>n_constant := 5\<rparr>) 2 = Some (Fin (- 4)) \<and>
   BIC_spec (toy_env [3] states_score) (toy_selector\<lparr>n_constant := 5\<rparr>) 3 = None \<and>
   BIC_spec (toy_env [3] states_score) (toy_selector\<lparr>n_constant := 5\<rparr>) 4 = Some (Fin (- 8)) \<and>
   SelectorBIC_select (toy_env [3] states_score)
       \<lparr>self = toy_selector\<lparr>n_constant := 5\<rparr>, fit_calls = []\<rparr> =
     (Inr (Some (5, [[1]], [1])),
      \<lparr>self = toy_selector\<lparr>n_constant := 5\<rparr>,
       fit_calls = [(2, [[1]], [1]), (3, [[1]], [1]), (5, [[1]], [1])]\<rparr>) \<and>
   (\<exists>e s1. SelectorBIC_search (toy_env [3] states_score)
       \<lparr>self = toy_selector\<lparr>n_constant := 5\<rparr>, fit_calls = []\<rparr> = (Inl e, s1))"
proof -
  let ?E = "toy_env [3] states_score" and ?T = "toy_selector\<lparr>n_constant := 5\<rparr>"
  let ?S = "\<lparr>self = ?T, fit_calls = []\<rparr>"
  have b: "BIC_spec ?E ?T 2 = Some (Fin (- 4))" "BIC_spec ?E ?T 3 = None"
    "BIC_spec ?E ?T 4 = Some (Fin (- 8))"
    by (simp_all add: toy_defs)
  have r: "min_n_components (self ?S) = 2" "max_n_components (self ?S) = 4"
    by (simp_all add: toy_defs)
  have pre: "\<forall>j \<in> {min_n_components (self ?S) ..< 3}. BIC_spec ?E (self ?S) j \<noteq> None"
  proof
    fix j :: int assume "j \<in> {min_n_components (self ?S) ..< 3}"
    then have "j = 2" using r by simp
    then show "BIC_spec ?E (self ?S) j \<noteq> None" using b by simp
  qed
  have hyp: "min_n_components (self ?S) \<le> 3 \<and> 3 \<le> max_n_components (self ?S) \<and>
    (\<forall>j \<in> {min_n_components (self ?S) ..< 3}. BIC_spec ?E (self ?S) j \<noteq> None) \<and>
    BIC_spec ?E (self ?S) 3 = None"
    using pre b r by simp
  have ex: "\<exists>k \<in> {min_n_components (self ?S) .. max_n_components (self ?S)}.
      BIC_spec ?E (self ?S) k = None"
    using b r by (intro bexI [of _ 3]) simp_all
  note th = SelectorBIC_failure_aborts_search [of ?S 3 ?E]
  have sel: "SelectorBIC_select ?E ?S =
      (Inr (fit_at ?E (n_constant (self ?S)) (self ?S)),
       logged ?S ([min_n_components (self ?S) .. 3] @ [n_constant (self ?S)]))"
    using th hyp by blast
  have raises: "\<exists>e s1. SelectorBIC_search ?E ?S = (Inl e, s1)"
    using th ex by blast
  have "SelectorBIC_select ?E ?S =
     (Inr (Some (5, [[1]], [1])),
      \<lparr>self = ?T, fit_calls = [(2, [[1]], [1]), (3, [[1]], [1]), (5, [[1]], [1])]\<rparr>)"
    unfolding sel by (simp add: toy_defs)
  then show ?thesis using b raises by simp
qed

text \<open>
  Claim C3 as the spec words it fails: the fit at 2 states fails, the candidates with 3 and 4
  states fit and score, and yet \<open>select\<close> returns the fallback model with 5 states after
  two fitting calls, without trying 3 or 4.
\<close>

theorem SelectorBIC_skip_counterexample:
  "BIC_spec (toy_env [2] states_score) (toy_selector\<lparr>n_constant := 5\<rparr>) 2 = None \<and>
   BIC_spec (toy_env [2] states_score) (toy_selector\<lparr>n_constant := 5\<rparr>) 3 = Some (Fin (- 6)) \<and>
   BIC_spec (toy_env [2] states_score) (toy_selector\<lparr>n_constant := 5\<rparr>) 4 = Some (Fin (- 8)) \<and>
   SelectorBIC_select (toy_env [2] states_score)
       \<lparr>self = toy_selector\<lparr>n_constant := 5\<rparr>, fit_calls = []\<rparr> =
     (Inr (Some (5, [[1]], [1])),
      \<lparr>self = toy_selector\<lparr>n_constant := 5\<rparr>,
       fit_calls = [(2, [[1]], [1]), (5, [[1]], [1])]\<rparr>)"
  by (simp add: SelectorBIC_select_def SelectorBIC_search_def BIC_score_def base_model_def
      model_score_def toy_defs Let_def)

section \<open>SelectorDIC\<close>

lemma DIC_loganti_ok:
  "\<not> list_ex isl (map (\<lambda>p. hmm_score env m (fst (snd p)) (snd (snd p)))
                    (filter (\<lambda>p. fst p \<noteq> w) hw)) \<Longrightarrow>
   DIC_loganti env (Some m) w hw acc =
     Inr (acc @ map projr (map (\<lambda>p. hmm_score env m (fst (snd p)) (snd (snd p)))
                             (filter (\<lambda>p. fst p \<noteq> w) hw)))"
proof (induction hw arbitrary: acc)
  case Nil
  show ?case by simp
next
  case (Cons a hw)
  obtain word seq len where a: "a = (word, seq, len)" by (cases a)
  show ?case
  proof (cases "word = w")
    case True
    then show ?thesis using Cons a by simp
  next
    case False
    with Cons.prems a obtain v where v: "hmm_score env m seq len = Inr v"
      by (cases "hmm_score env m seq len") auto
    have "\<not> list_ex isl (map (\<lambda>p. hmm_score env m (fst (snd p)) (snd (snd p)))
                    (filter (\<lambda>p. fst p \<noteq> w) hw))"
      using Cons.prems a False by simp
    from Cons.IH [OF this] show ?thesis using a False v by (simp add: model_score_def)
  qed
qed

lemma DIC_loganti_fail:
  "list_ex isl (map (\<lambda>p. hmm_score env m (fst (snd p)) (snd (snd p)))
                  (filter (\<lambda>p. fst p \<noteq> w) hw)) \<Longrightarrow>
   \<exists>e. DIC_loganti env (Some m) w hw acc = Inl e"
proof (induction hw arbitrary: acc)
  case Nil
  then show ?case by simp
next
  case (Cons a hw)
  obtain word seq len where a: "a = (word, seq, len)" by (cases a)
  show ?case
  proof (cases "word = w")
    case True
    then show ?thesis using Cons a by simp
  next
    case False
    show ?thesis
    proof (cases "hmm_score env m seq len")
      case (Inl e)
      then show ?thesis using a False by (simp add: model_score_def)
    next
      case (Inr v)
      then have "list_ex isl (map (\<lambda>p. hmm_score env m (fst (snd p)) (snd (snd p)))
                  (filter (\<lambda>p. fst p \<noteq> w) hw))"
        using Cons.prems a False by simp
      from Cons.IH [OF this] show ?thesis using a False Inr by (simp add: model_score_def)
    qed
  qed
qed

lemma DIC_score_Some:
  "DIC_spec env (self s) n = Some v \<Longrightarrow> DIC_score env n s = (Inr v, logged s [n])"
proof -
  assume a: "DIC_spec env (self s) n = Some v"
  then obtain m where m: "fit_at env n (self s) = Some m"
    by (auto simp: DIC_spec_def split: option.splits)
  from a m obtain logL where l: "hmm_score env m (X (self s)) (lengths (self s)) = Inr logL"
    by (auto simp: DIC_spec_def split: sum.splits)
  let ?anti = "map (\<lambda>p. hmm_score env m (fst (snd p)) (snd (snd p))) (other_words (self s))"
  from a m l have n: "\<not> list_ex isl ?anti" and v: "v = fl_sub env logL (np_mean env (map projr ?anti))"
    by (auto simp: DIC_spec_def Let_def split: if_splits)
  from DIC_loganti_ok [OF n [unfolded other_words_def], of "[]"]
  show ?thesis using m l v
    by (simp add: DIC_score_def base_model_logged model_score_def other_words_def)
qed

lemma DIC_score_None:
  "DIC_spec env (self s) n = None \<Longrightarrow> \<exists>e. DIC_score env n s = (Inl e, logged s [n])"
proof -
  assume a: "DIC_spec env (self s) n = None"
  show ?thesis
  proof (cases "fit_at env n (self s)")
    case None
    then show ?thesis by (simp add: DIC_score_def base_model_logged model_score_def)
  next
    case (Some m)
    show ?thesis
    proof (cases "hmm_score env m (X (self s)) (lengths (self s))")
      case (Inl e)
      then show ?thesis using Some by (simp add: DIC_score_def base_model_logged model_score_def)
    next
      case (Inr logL)
      with a Some have "list_ex isl (map (\<lambda>p. hmm_score env m (fst (snd p)) (snd (snd p)))
          (other_words (self s)))"
        by (auto simp: DIC_spec_def Let_def split: if_splits)
      from DIC_loganti_fail [OF this [unfolded other_words_def], of "[]"]
      show ?thesis using Some Inr
        by (auto simp: DIC_score_def base_model_logged model_score_def)
    qed
  qed
qed

lemma DIC_loop_ok:
  "\<forall>n \<in> set ns. DIC_spec env (self s) n \<noteq> None \<Longrightarrow>
   DIC_loop env ns acc s =
     (Inr (running_best py_gt acc (scored (DIC_spec env (self s)) ns)), logged s ns)"
proof (induction ns arbitrary: acc s)
  case Nil
  show ?case by (cases acc) (simp add: scored_def)
next
  case (Cons n ns)
  obtain b k where acc: "acc = (b, k)" by (cases acc)
  from Cons.prems obtain v where v: "DIC_spec env (self s) n = Some v" by auto
  have rest: "\<forall>j \<in> set ns. DIC_spec env (self (logged s [n])) j \<noteq> None"
    using Cons.prems by simp
  show ?case
    using Cons.IH [OF rest] v
    by (simp add: acc DIC_score_Some scored_def)
qed

lemma DIC_loop_fail:
  "\<forall>n \<in> set pre. DIC_spec env (self s) n \<noteq> None \<Longrightarrow> DIC_spec env (self s) k = None \<Longrightarrow>
   \<exists>e. DIC_loop env (pre @ k # post) acc s = (Inl e, logged s (pre @ [k]))"
proof (induction pre arbitrary: acc s)
  case Nil
  obtain b j where acc: "acc = (b, j)" by (cases acc)
  from DIC_score_None [OF Nil(2)] show ?case by (auto simp: acc)
next
  case (Cons n pre)
  obtain b j where acc: "acc = (b, j)" by (cases acc)
  from Cons.prems obtain v where v: "DIC_spec env (self s) n = Some v" by auto
  have 1: "\<forall>j \<in> set pre. DIC_spec env (self (logged s [n])) j \<noteq> None"
    using Cons.prems by simp
  have 2: "DIC_spec env (self (logged s [n])) k = None" using Cons.prems by simp
  from Cons.IH [OF 1 2] show ?case
    by (simp add: acc DIC_score_Some [OF v])
qed

lemma DIC_spec_Some_fit:
  "DIC_spec env ctx n = Some v \<Longrightarrow>
   \<exists>m. hmm_fit env n (random_state ctx) (X ctx) (lengths ctx) = Inr m \<and> fit_at env n ctx = Some m"
  by (auto simp: DIC_spec_def fit_at_def Let_def split: option.splits sum.splits if_splits)

lemma DIC_spec_Some_formula:
  "DIC_spec env ctx n = Some v \<Longrightarrow>
   hmm_fit env n (random_state ctx) (X ctx) (lengths ctx) = Inr m \<Longrightarrow>
   \<exists>logL. hmm_score env m (X ctx) (lengths ctx) = Inr logL \<and>
     v = fl_sub env logL
           (np_mean env (map (\<lambda>p. projr (hmm_score env m (fst (snd p)) (snd (snd p))))
                           (other_words ctx)))"
  by (auto simp: DIC_spec_def fit_at_def Let_def comp_def split: option.splits sum.splits if_splits)

lemma SelectorDIC_search_ok:
  assumes "\<forall>k \<in> set [min_n_components (self s) .. max_n_components (self s)].
             DIC_spec env (self s) k \<noteq> None"
  shows "SelectorDIC_search env s =
     (case running_best py_gt (NInf, None)
             (scored (DIC_spec env (self s))
                [min_n_components (self s) .. max_n_components (self s)]) of
        (b, None) \<Rightarrow>
          (Inl UnboundLocalError, logged s [min_n_components (self s) .. max_n_components (self s)])
      | (b, Some n) \<Rightarrow>
          (Inr (fit_at env n (self s)),
           logged s ([min_n_components (self s) .. max_n_components (self s)] @ [n])))"
  unfolding SelectorDIC_search_def DIC_loop_ok [OF assms]
  by (simp add: base_model_logged split: prod.splits option.splits)

lemma SelectorDIC_search_fail:
  assumes "[min_n_components (self s) .. max_n_components (self s)] = pre @ k # post"
    and "\<forall>j \<in> set pre. DIC_spec env (self s) j \<noteq> None"
    and "DIC_spec env (self s) k = None"
  shows "\<exists>e. SelectorDIC_search env s = (Inl e, logged s (pre @ [k]))"
proof -
  from DIC_loop_fail [OF assms(2,3), of post "(NInf, None)"]
  obtain e where "DIC_loop env (pre @ k # post) (NInf, None) s = (Inl e, logged s (pre @ [k]))"
    by blast
  then show ?thesis by (simp add: SelectorDIC_search_def assms(1))
qed

lemma SelectorDIC_search_Inr_all_ok:
  assumes "SelectorDIC_search env s = (Inr r, s')"
  shows "\<forall>k \<in> set [min_n_components (self s) .. max_n_components (self s)].
           DIC_spec env (self s) k \<noteq> None"
proof (rule ccontr)
  assume "\<not> ?thesis"
  then have "\<exists>k \<in> set [min_n_components (self s) .. max_n_components (self s)].
               DIC_spec env (self s) k = None" by simp
  from first_failure [OF this] obtain pre k post where
    d: "[min_n_components (self s) .. max_n_components (self s)] = pre @ k # post"
       "\<forall>j \<in> set pre. DIC_spec env (self s) j \<noteq> None" "DIC_spec env (self s) k = None"
    by blast
  from SelectorDIC_search_fail [OF d] assms show False by auto
qed

lemma SelectorDIC_search_Inr_fitted:
  assumes "SelectorDIC_search env s = (Inr r, s')"
  shows "\<exists>m. r = Some m"
proof -
  let ?lo = "min_n_components (self s)" and ?hi = "max_n_components (self s)"
  let ?f = "DIC_spec env (self s)"
  have ok: "\<forall>k \<in> set [?lo .. ?hi]. ?f k \<noteq> None"
    by (rule SelectorDIC_search_Inr_all_ok [OF assms])
  obtain b kk where rb: "running_best py_gt (NInf, None) (scored ?f [?lo .. ?hi]) = (b, kk)"
    by (cases "running_best py_gt (NInf, None) (scored ?f [?lo .. ?hi])")
  from assms obtain n where kk: "kk = Some n" and r: "r = fit_at env n (self s)"
    unfolding SelectorDIC_search_ok [OF ok] rb by (cases kk) auto
  from first_best_upto [OF rb [unfolded kk] float_order_gt] have "?lo \<le> n" "n \<le> ?hi"
    by blast+
  then have "?f n \<noteq> None" using ok by simp
  then obtain v where "?f n = Some v" by auto
  from DIC_spec_Some_fit [OF this] r show ?thesis by auto
qed

lemma SelectorDIC_search_self: "self (snd (SelectorDIC_search env s)) = self s"
proof (cases "\<exists>k \<in> set [min_n_components (self s) .. max_n_components (self s)].
                DIC_spec env (self s) k = None")
  case True
  from first_failure [OF True] obtain pre k post where
    d: "[min_n_components (self s) .. max_n_components (self s)] = pre @ k # post"
       "\<forall>j \<in> set pre. DIC_spec env (self s) j \<noteq> None" "DIC_spec env (self s) k = None"
    by blast
  from SelectorDIC_search_fail [OF d] show ?thesis by auto
next
  case False
  then have ok: "\<forall>k \<in> set [min_n_components (self s) .. max_n_components (self s)].
      DIC_spec env (self s) k \<noteq> None" by simp
  show ?thesis unfolding SelectorDIC_search_ok [OF ok]
    by (simp split: prod.splits option.splits)
qed

lemma SelectorDIC_select_self: "self (snd (SelectorDIC_select env s)) = self s"
proof -
  obtain x s1 where c: "SelectorDIC_search env s = (x, s1)" by (cases "SelectorDIC_search env s")
  have "self s1 = self s" using SelectorDIC_search_self [of env s] c by simp
  then show ?thesis using c
    by (simp add: SelectorDIC_select_def base_model_logged split: sum.splits)
qed

lemma SelectorDIC_select_fail:
  assumes "[min_n_components (self s) .. max_n_components (self s)] = pre @ k # post"
    and "\<forall>j \<in> set pre. DIC_spec env (self s) j \<noteq> None"
    and "DIC_spec env (self s) k = None"
  shows "SelectorDIC_select env s =
     (Inr (fit_at env (n_constant (self s)) (self s)), logged s (pre @ [k, n_constant (self s)]))"
proof -
  from SelectorDIC_search_fail [OF assms] obtain e where
    "SelectorDIC_search env s = (Inl e, logged s (pre @ [k]))" by blast
  then show ?thesis by (simp add: SelectorDIC_select_def base_model_logged)
qed

lemma SelectorDIC_search_raises_iff:
  "(\<exists>e s1. SelectorDIC_search env s = (Inl e, s1)) \<longleftrightarrow>
     (\<exists>k \<in> {min_n_components (self s) .. max_n_components (self s)}. DIC_spec env (self s) k = None) \<or>
     (\<forall>k \<in> {min_n_components (self s) .. max_n_components (self s)}.
        \<not> py_gt (the (DIC_spec env (self s) k)) NInf)"
proof -
  let ?lo = "min_n_components (self s)" and ?hi = "max_n_components (self s)"
  let ?f = "DIC_spec env (self s)"
  show ?thesis
  proof (cases "\<exists>k \<in> set [?lo .. ?hi]. ?f k = None")
    case True
    from first_failure [OF True] obtain pre k post where
      d: "[?lo .. ?hi] = pre @ k # post" "\<forall>j \<in> set pre. ?f j \<noteq> None" "?f k = None" by blast
    from SelectorDIC_search_fail [OF d] True show ?thesis by auto
  next
    case False
    then have ok: "\<forall>k \<in> set [?lo .. ?hi]. ?f k \<noteq> None" by simp
    obtain b kk where rb: "running_best py_gt (NInf, None) (scored ?f [?lo .. ?hi]) = (b, kk)"
      by (cases "running_best py_gt (NInf, None) (scored ?f [?lo .. ?hi])")
    show ?thesis
    proof (cases "\<forall>k \<in> set [?lo .. ?hi]. \<not> py_gt (the (?f k)) NInf")
      case True
      from running_best_none [of "[?lo .. ?hi]" py_gt ?f NInf None, OF True]
      have "SelectorDIC_search env s = (Inl UnboundLocalError, logged s [?lo .. ?hi])"
        unfolding SelectorDIC_search_ok [OF ok] by simp
      then show ?thesis using True by auto
    next
      case nb: False
      have "kk \<noteq> None"
      proof
        assume "kk = None"
        with running_best_scored [OF rb float_order_gt] nb show False by auto
      qed
      then obtain n where "kk = Some n" by auto
      then have "SelectorDIC_search env s =
          (Inr (fit_at env n (self s)), logged s ([?lo .. ?hi] @ [n]))"
        unfolding SelectorDIC_search_ok [OF ok] rb by simp
      then show ?thesis using nb False by auto
    qed
  qed
qed

text \<open>
  Claim C6.  When the search of \<open>SelectorDIC.select\<close> completes (the non-fallback path), the
  method returns the model fitted at a state count \<open>n\<close> of the range whose DIC, the word's own
  log-likelihood minus the mean score of every other word's data under the candidate, no
  candidate of the range exceeds; every candidate below \<open>n\<close> has a strictly smaller DIC (or
  NaN), so on ties the first maximum, the smallest state count, is the one chosen.
\<close>

theorem SelectorDIC_search_maximises_DIC:
  assumes "SelectorDIC_search env s = (Inr r, s')"
  shows "SelectorDIC_select env s = (Inr r, s') \<and>
   (\<exists>n m logL dic.
     min_n_components (self s) \<le> n \<and> n \<le> max_n_components (self s) \<and>
     hmm_fit env n (random_state (self s)) (X (self s)) (lengths (self s)) = Inr m \<and>
     r = Some m \<and>
     hmm_score env m (X (self s)) (lengths (self s)) = Inr logL \<and>
     dic = fl_sub env logL
             (np_mean env (map (\<lambda>p. projr (hmm_score env m (fst (snd p)) (snd (snd p))))
                             (other_words (self s)))) \<and>
     DIC_spec env (self s) n = Some dic \<and>
     (\<forall>k \<in> {min_n_components (self s) .. max_n_components (self s)}.
        \<exists>v. DIC_spec env (self s) k = Some v \<and> \<not> py_gt v dic \<and>
            (k < n \<longrightarrow> v = NaN \<or> py_gt dic v)))"
proof -
  let ?lo = "min_n_components (self s)" and ?hi = "max_n_components (self s)"
  let ?f = "DIC_spec env (self s)"
  have ok: "\<forall>k \<in> set [?lo .. ?hi]. ?f k \<noteq> None"
    by (rule SelectorDIC_search_Inr_all_ok [OF assms])
  obtain b kk where rb: "running_best py_gt (NInf, None) (scored ?f [?lo .. ?hi]) = (b, kk)"
    by (cases "running_best py_gt (NInf, None) (scored ?f [?lo .. ?hi])")
  from assms obtain n where kk: "kk = Some n" and r: "r = fit_at env n (self s)"
    unfolding SelectorDIC_search_ok [OF ok] rb by (cases kk) auto
  from first_best_upto [OF rb [unfolded kk] float_order_gt]
  have fb: "?lo \<le> n" "n \<le> ?hi" "b = the (?f n)"
    "\<forall>j \<in> {?lo .. ?hi}. \<not> py_gt (the (?f j)) b"
    "\<forall>j \<in> {?lo ..< n}. the (?f j) = NaN \<or> py_gt b (the (?f j))"
    by blast+
  have "?f n \<noteq> None" using ok fb(1,2) by simp
  then have fn: "?f n = Some b" using fb(3) by auto
  from DIC_spec_Some_fit [OF fn] obtain m where
    m: "hmm_fit env n (random_state (self s)) (X (self s)) (lengths (self s)) = Inr m"
       "fit_at env n (self s) = Some m" by blast
  from DIC_spec_Some_formula [OF fn m(1)] obtain logL where
    fm: "hmm_score env m (X (self s)) (lengths (self s)) = Inr logL"
      "b = fl_sub env logL
             (np_mean env (map (\<lambda>p. projr (hmm_score env m (fst (snd p)) (snd (snd p))))
                             (other_words (self s))))"
    by blast
  have all: "\<forall>k \<in> {?lo .. ?hi}. \<exists>v. ?f k = Some v \<and> \<not> py_gt v b \<and> (k < n \<longrightarrow> v = NaN \<or> py_gt b v)"
  proof
    fix k assume k: "k \<in> {?lo .. ?hi}"
    then have "?f k \<noteq> None" using ok by simp
    then obtain v where v: "?f k = Some v" by auto
    have 1: "\<not> py_gt v b" using fb(4) k v by force
    have 2: "k < n \<longrightarrow> v = NaN \<or> py_gt b v" using fb(5) k v by force
    show "\<exists>v. ?f k = Some v \<and> \<not> py_gt v b \<and> (k < n \<longrightarrow> v = NaN \<or> py_gt b v)"
      using v 1 2 by blast
  qed
  have sel: "SelectorDIC_select env s = (Inr r, s')"
    using assms by (simp add: SelectorDIC_select_def)
  have "\<exists>n m logL dic.
     min_n_components (self s) \<le> n \<and> n \<le> max_n_components (self s) \<and>
     hmm_fit env n (random_state (self s)) (X (self s)) (lengths (self s)) = Inr m \<and>
     r = Some m \<and>
     hmm_score env m (X (self s)) (lengths (self s)) = Inr logL \<and>
     dic = fl_sub env logL
             (np_mean env (map (\<lambda>p. projr (hmm_score env m (fst (snd p)) (snd (snd p))))
                             (other_words (self s)))) \<and>
     DIC_spec env (self s) n = Some dic \<and>
     (\<forall>k \<in> {min_n_components (self s) .. max_n_components (self s)}.
        \<exists>v. DIC_spec env (self s) k = Some v \<and> \<not> py_gt v dic \<and>
            (k < n \<longrightarrow> v = NaN \<or> py_gt dic v))"
    using fb(1,2) m r fm fn all by blast
  with sel show ?thesis by simp
qed

lemma toy_DIC_own:
  "SelectorDIC_search (toy_env [] own_data_score) \<lparr>self = toy_selector, fit_calls = []\<rparr> =
     (Inr (Some (3, [[1]], [1])),
      \<lparr>self = toy_selector,
       fit_calls = [(2, [[1]], [1]), (3, [[1]], [1]), (4, [[1]], [1]), (3, [[1]], [1])]\<rparr>)"
  by (simp add: SelectorDIC_search_def DIC_score_def base_model_def model_score_def
      toy_env_def toy_selector_def own_data_score_def exact_mean_def exact_sub_def py_gt_def Let_def)

text \<open>
  An instance with a second word in the vocabulary: the DIC is 2, 3, 3 at 2, 3 and 4 states
  and the search returns the model with 3 states, the first of the two maxima.
\<close>

theorem SelectorDIC_search_maximises_DIC_witness:
  "SelectorDIC_search (toy_env [] own_data_score) \<lparr>self = toy_selector, fit_calls = []\<rparr> =
     (Inr (Some (3, [[1]], [1])),
      \<lparr>self = toy_selector,
       fit_calls = [(2, [[1]], [1]), (3, [[1]], [1]), (4, [[1]], [1]), (3, [[1]], [1])]\<rparr>) \<and>
   DIC_spec (toy_env [] own_data_score) toy_selector 2 = Some (Fin 2) \<and>
   DIC_spec (toy_env [] own_data_score) toy_selector 3 = Some (Fin 3) \<and>
   DIC_spec (toy_env [] own_data_score) toy_selector 4 = Some (Fin 3) \<and>
   SelectorDIC_select (toy_env [] own_data_score) \<lparr>self = toy_selector, fit_calls = []\<rparr> =
     (Inr (Some (3, [[1]], [1])),
      \<lparr>self = toy_selector,
       fit_calls = [(2, [[1]], [1]), (3, [[1]], [1]), (4, [[1]], [1]), (3, [[1]], [1])]\<rparr>) \<and>
   (\<exists>n m logL dic.
     min_n_components toy_selector \<le> n \<and> n \<le> max_n_components toy_selector \<and>
     hmm_fit (toy_env [] own_data_score) n (random_state toy_selector) (X toy_selector)
       (lengths toy_selector) = Inr m \<and>
     Some (3, [[1]], [1]) = Some m \<and>
     hmm_score (toy_env [] own_data_score) m (X toy_selector) (lengths toy_selector) = Inr logL \<and>
     dic = fl_sub (toy_env [] own_data_score) logL
             (np_mean (toy_env [] own_data_score)
                (map (\<lambda>p. projr (hmm_score (toy_env [] own_data_score) m (fst (snd p)) (snd (snd p))))
                   (other_words toy_selector))) \<and>
     DIC_spec (toy_env [] own_data_score) toy_selector n = Some dic \<and>
     (\<forall>k \<in> {min_n_components toy_selector .. max_n_components toy_selector}.
        \<exists>v. DIC_spec (toy_env [] own_data_score) toy_selector k = Some v \<and> \<not> py_gt v dic \<and>
            (k < n \<longrightarrow> v = NaN \<or> py_gt dic v)))"
proof -
  have h: "SelectorDIC_search (toy_env [] own_data_score) \<lparr>self = toy_selector, fit_calls = []\<rparr> =
     (Inr (Some (3, [[1]], [1])),
      \<lparr>self = toy_selector,
       fit_calls = [(2, [[1]], [1]), (3, [[1]], [1]), (4, [[1]], [1]), (3, [[1]], [1])]\<rparr>)"
    by (rule toy_DIC_own)
  have b: "DIC_spec (toy_env [] own_data_score) toy_selector 2 = Some (Fin 2)"
    "DIC_spec (toy_env [] own_data_score) toy_selector 3 = Some (Fin 3)"
    "DIC_spec (toy_env [] own_data_score) toy_selector 4 = Some (Fin 3)"
    by (simp_all add: DIC_spec_def other_words_def own_data_score_def exact_mean_def
        exact_sub_def toy_defs)
  from SelectorDIC_search_maximises_DIC [OF h] h b show ?thesis by simp
qed

section \<open>SelectorCV: what the search does to the object\<close>

lemma same_but_data_refl [simp]: "same_but_data c c"
  by (simp add: same_but_data_def)

lemma same_but_data_update [simp]: "same_but_data c (c\<lparr>X := Xs, lengths := ls\<rparr>)"
  by (simp add: same_but_data_def)

lemma same_but_data_trans:
  "same_but_data a b \<Longrightarrow> same_but_data b c \<Longrightarrow> same_but_data a c"
  by (simp add: same_but_data_def)

lemma CV_folds_frame:
  "same_but_data (self s) (self (snd (CV_folds env n folds scores s)))"
proof (induction folds arbitrary: scores s)
  case Nil
  show ?case by simp
next
  case (Cons f folds)
  obtain tr te where f: "f = (tr, te)" by (cases f)
  show ?case
  proof (cases "combine_sequences tr (sequences (self s))")
    case (Inl e)
    then show ?thesis by (simp add: f)
  next
    case (Inr p)
    obtain Xs ls where p: "p = (Xs, ls)" by (cases p)
    let ?s1 = "logged (s\<lparr>self := (self s)\<lparr>X := Xs, lengths := ls\<rparr>\<rparr>) [n]"
    have s1: "same_but_data (self s) (self ?s1)" by simp
    show ?thesis
    proof (cases "combine_sequences te (sequences (self ?s1))")
      case Inl
      then show ?thesis using Inr p by (simp add: f base_model_logged)
    next
      case (Inr q)
      obtain Xt lt where q: "q = (Xt, lt)" by (cases q)
      show ?thesis
      proof (cases "model_score env (fit_at env n (self ?s1)) Xt lt")
        case Inl
        then show ?thesis
          using \<open>combine_sequences tr (sequences (self s)) = Inr p\<close> p Inr q
          by (simp add: f base_model_logged)
      next
        case (Inr v)
        have "same_but_data (self ?s1) (self (snd (CV_folds env n folds (scores @ [v]) ?s1)))"
          by (rule Cons.IH)
        from same_but_data_trans [OF s1 this] show ?thesis
          using \<open>combine_sequences tr (sequences (self s)) = Inr p\<close> p
            \<open>combine_sequences te (sequences (self ?s1)) = Inr q\<close> q Inr
          by (simp add: f base_model_logged)
      qed
    qed
  qed
qed

lemma CV_score_frame: "same_but_data (self s) (self (snd (CV_score env n s)))"
proof (cases "kfold_split env (length (sequences (self s)))")
  case (Inl e)
  then show ?thesis by (simp add: CV_score_def)
next
  case (Inr folds)
  obtain r s1 where c: "CV_folds env n folds [] s = (r, s1)"
    by (cases "CV_folds env n folds [] s")
  have "same_but_data (self s) (self s1)" using CV_folds_frame [of s env n folds "[]"] c by simp
  then show ?thesis using Inr c by (simp add: CV_score_def split: sum.splits)
qed

lemma CV_loop_frame: "same_but_data (self s) (self (snd (CV_loop env ns acc s)))"
proof (induction ns arbitrary: acc s)
  case Nil
  show ?case by (cases acc) simp
next
  case (Cons n ns)
  obtain b k where acc: "acc = (b, k)" by (cases acc)
  obtain r s1 where c: "CV_score env n s = (r, s1)" by (cases "CV_score env n s")
  have 1: "same_but_data (self s) (self s1)" using CV_score_frame [of s env n] c by simp
  show ?case
  proof (cases r)
    case (Inl e)
    then show ?thesis using c 1 by (simp add: acc)
  next
    case (Inr v)
    show ?thesis
      using same_but_data_trans [OF 1 Cons.IH [of s1]] c Inr
      by (simp add: acc)
  qed
qed

lemma SelectorCV_search_frame: "same_but_data (self s) (self (snd (SelectorCV_search env s)))"
proof -
  let ?ns = "[min_n_components (self s) .. max_n_components (self s)]"
  obtain r s1 where c: "CV_loop env ?ns (NInf, None) s = (r, s1)"
    by (cases "CV_loop env ?ns (NInf, None) s")
  have "same_but_data (self s) (self s1)"
    using CV_loop_frame [of s env ?ns "(NInf, None)"] c by simp
  then show ?thesis using c
    by (simp add: SelectorCV_search_def base_model_logged split: sum.splits prod.splits option.splits)
qed

lemma SelectorCV_select_frame: "same_but_data (self s) (self (snd (SelectorCV_select env s)))"
proof -
  obtain r s1 where c: "SelectorCV_search env s = (r, s1)" by (cases "SelectorCV_search env s")
  have "same_but_data (self s) (self s1)" using SelectorCV_search_frame [of s env] c by simp
  then show ?thesis using c
    by (simp add: SelectorCV_select_def base_model_logged split: sum.splits)
qed

lemma SelectorConstant_select_self: "self (snd (SelectorConstant_select env s)) = self s"
  by (simp add: SelectorConstant_select_def base_model_eq Let_def)

lemma CV_folds_last:
  "CV_folds env n folds scores s = (Inr sc, s1) \<Longrightarrow> folds \<noteq> [] \<Longrightarrow>
   combine_sequences (fst (last folds)) (sequences (self s)) =
     Inr (X (self s1), lengths (self s1))"
proof (induction folds arbitrary: scores s)
  case Nil
  then show ?case by simp
next
  case (Cons f folds)
  obtain tr te where f: "f = (tr, te)" by (cases f)
  from Cons.prems(1) obtain Xs ls where c1: "combine_sequences tr (sequences (self s)) = Inr (Xs, ls)"
    by (cases "combine_sequences tr (sequences (self s))") (auto simp: f)
  let ?s1 = "logged (s\<lparr>self := (self s)\<lparr>X := Xs, lengths := ls\<rparr>\<rparr>) [n]"
  from Cons.prems(1) c1 obtain Xt lt where
    c2: "combine_sequences te (sequences (self ?s1)) = Inr (Xt, lt)"
    by (cases "combine_sequences te (sequences (self ?s1))") (auto simp: f base_model_logged)
  from Cons.prems(1) c1 c2 obtain v where
    c3: "model_score env (fit_at env n (self ?s1)) Xt lt = Inr v"
    by (cases "model_score env (fit_at env n (self ?s1)) Xt lt") (auto simp: f base_model_logged)
  have rest: "CV_folds env n folds (scores @ [v]) ?s1 = (Inr sc, s1)"
    using Cons.prems(1) c1 c2 c3 by (simp add: f base_model_logged)
  show ?case
  proof (cases "folds = []")
    case True
    then show ?thesis using rest c1 by (auto simp: f)
  next
    case False
    from Cons.IH [OF rest False] False show ?thesis by simp
  qed
qed

lemma CV_score_last:
  assumes "CV_score env n s = (Inr v, s1)"
    and "kfold_split env (length (sequences (self s))) = Inr folds" and "folds \<noteq> []"
  shows "combine_sequences (fst (last folds)) (sequences (self s)) =
     Inr (X (self s1), lengths (self s1))"
proof -
  from assms(1,2) obtain sc where "CV_folds env n folds [] s = (Inr sc, s1)"
    by (cases "CV_folds env n folds [] s") (auto simp: CV_score_def split: sum.splits)
  from CV_folds_last [OF this assms(3)] show ?thesis .
qed

lemma CV_loop_last:
  "CV_loop env ns acc s = (Inr acc', s1) \<Longrightarrow> ns \<noteq> [] \<Longrightarrow>
   kfold_split env (length (sequences (self s))) = Inr folds \<Longrightarrow> folds \<noteq> [] \<Longrightarrow>
   combine_sequences (fst (last folds)) (sequences (self s)) =
     Inr (X (self s1), lengths (self s1))"
proof (induction ns arbitrary: acc s)
  case Nil
  then show ?case by simp
next
  case (Cons n ns)
  obtain b k where acc: "acc = (b, k)" by (cases acc)
  obtain r s2 where c: "CV_score env n s = (r, s2)" by (cases "CV_score env n s")
  from Cons.prems(1) c obtain v where r: "r = Inr v" by (cases r) (auto simp: acc)
  have fr: "same_but_data (self s) (self s2)" using CV_score_frame [of s env n] c by simp
  then have seqs: "sequences (self s2) = sequences (self s)" by (simp add: same_but_data_def)
  have last2: "combine_sequences (fst (last folds)) (sequences (self s)) =
      Inr (X (self s2), lengths (self s2))"
    using CV_score_last [OF c [unfolded r] Cons.prems(3,4)] .
  obtain acc2 where rest: "CV_loop env ns acc2 s2 = (Inr acc', s1)"
    using Cons.prems(1) c r by (auto simp: acc split: if_splits)
  show ?case
  proof (cases "ns = []")
    case True
    then have "s1 = s2" using rest by (cases acc2) simp
    then show ?thesis using last2 by simp
  next
    case False
    have k: "kfold_split env (length (sequences (self s2))) = Inr folds"
      using Cons.prems(3) seqs by simp
    from Cons.IH [OF rest False k Cons.prems(4)] seqs show ?thesis by simp
  qed
qed

lemma CV_loop_empty_best: "CV_loop env [] acc s = (Inr acc, s)"
  by (cases acc) simp

lemma fit_at_same_data:
  "same_but_data c c' \<Longrightarrow> fit_at env n c' = fit_at env n (c\<lparr>X := X c', lengths := lengths c'\<rparr>)"
  by (simp add: fit_at_def same_but_data_def)

text \<open>
  The defect behind claims C2 and C8 in general: whenever the cross-validation search
  completes and there is at least one fold, the object ends up holding the training part of
  the last fold, and the model returned is the fit on that part.
\<close>

lemma SelectorCV_search_fits_last_training_fold:
  assumes "SelectorCV_search env s = (Inr r, s')"
    and "kfold_split env (length (sequences (self s))) = Inr folds" and "folds \<noteq> []"
  shows "\<exists>n Xl ll.
     combine_sequences (fst (last folds)) (sequences (self s)) = Inr (Xl, ll) \<and>
     r = fit_at env n ((self s)\<lparr>X := Xl, lengths := ll\<rparr>) \<and>
     X (self s') = Xl \<and> lengths (self s') = ll \<and>
     fit_calls s' \<noteq> [] \<and> last (fit_calls s') = (n, Xl, ll)"
proof -
  let ?ns = "[min_n_components (self s) .. max_n_components (self s)]"
  obtain x s1 where c: "CV_loop env ?ns (NInf, None) s = (x, s1)"
    by (cases "CV_loop env ?ns (NInf, None) s")
  from assms(1) c obtain b n where x: "x = Inr (b, Some n)"
    by (cases x) (auto simp: SelectorCV_search_def split: option.splits)
  have ne: "?ns \<noteq> []"
  proof
    assume e: "?ns = []"
    have "CV_loop env ?ns (NInf, None) s = (Inr (NInf, None), s)"
      unfolding e by (rule CV_loop_empty_best)
    with c x show False by simp
  qed
  from CV_loop_last [OF c [unfolded x] ne assms(2,3)]
  have l: "combine_sequences (fst (last folds)) (sequences (self s)) =
      Inr (X (self s1), lengths (self s1))" .
  have fr: "same_but_data (self s) (self s1)"
    using CV_loop_frame [of s env ?ns "(NInf, None)"] c by simp
  have res: "r = fit_at env n (self s1)" "s' = logged s1 [n]"
    using assms(1) c x by (simp_all add: SelectorCV_search_def base_model_logged)
  have "r = fit_at env n ((self s)\<lparr>X := X (self s1), lengths := lengths (self s1)\<rparr>)"
    using res(1) fit_at_same_data [OF fr] by simp
  then show ?thesis using l res(2) by simp
qed

lemma toy_CV_select:
  "SelectorCV_select (toy_env [] states_score) \<lparr>self = toy_cv_selector, fit_calls = []\<rparr> =
     (Inr (Some (3, [[1], [2]], [1, 1])),
      \<lparr>self = toy_cv_selector\<lparr>X := [[1], [2]], lengths := [1, 1]\<rparr>,
       fit_calls =
         [(2, [[2], [3]], [1, 1]), (2, [[1], [3]], [1, 1]), (2, [[1], [2]], [1, 1]),
          (3, [[2], [3]], [1, 1]), (3, [[1], [3]], [1, 1]), (3, [[1], [2]], [1, 1]),
          (3, [[1], [2]], [1, 1])]\<rparr>)"
  by (simp add: SelectorCV_select_def SelectorCV_search_def CV_score_def base_model_def
      model_score_def toy_env_def toy_cv_selector_def states_score_def KFold_split_def
      exact_mean_def py_gt_def upt_rec Let_def)

text \<open>
  Claim C2 contradicted by the code (a defect of \<open>CV_score\<close>, which stores each training fold
  in \<^verbatim>\<open>self.X, self.lengths\<close> and never restores them).  For a word with three sequences the
  search completes and selects 3 states, and the model returned is the fit on the first two
  sequences, the training part of the last fold, not the fit on all three.
\<close>

theorem SelectorCV_select_fits_last_training_fold:
  "ModelSelector_init [(''FISH'', [[[1]], [[2]], [[3]]])]
       [(''FISH'', ([[1], [2], [3]], [1, 1, 1]))] ''FISH'' 3 2 3 14 False = Inr toy_cv_selector \<and>
   fst (SelectorCV_search (toy_env [] states_score) \<lparr>self = toy_cv_selector, fit_calls = []\<rparr>) =
     Inr (Some (3, [[1], [2]], [1, 1])) \<and>
   fst (SelectorCV_select (toy_env [] states_score) \<lparr>self = toy_cv_selector, fit_calls = []\<rparr>) =
     Inr (Some (3, [[1], [2]], [1, 1])) \<and>
   fit_at (toy_env [] states_score) 3 toy_cv_selector = Some (3, [[1], [2], [3]], [1, 1, 1])"
proof -
  have 1: "ModelSelector_init [(''FISH'', [[[1]], [[2]], [[3]]])]
       [(''FISH'', ([[1], [2], [3]], [1, 1, 1]))] ''FISH'' 3 2 3 14 False = Inr toy_cv_selector"
    by (simp add: ModelSelector_init_def toy_cv_selector_def)
  have 2: "fst (SelectorCV_search (toy_env [] states_score)
        \<lparr>self = toy_cv_selector, fit_calls = []\<rparr>) = Inr (Some (3, [[1], [2]], [1, 1]))"
    by (simp add: SelectorCV_search_def CV_score_def base_model_def model_score_def toy_env_def
        toy_cv_selector_def states_score_def KFold_split_def exact_mean_def py_gt_def upt_rec
        Let_def)
  have 3: "fst (SelectorCV_select (toy_env [] states_score)
        \<lparr>self = toy_cv_selector, fit_calls = []\<rparr>) = Inr (Some (3, [[1], [2]], [1, 1]))"
    by (simp add: toy_CV_select)
  have 4: "fit_at (toy_env [] states_score) 3 toy_cv_selector =
      Some (3, [[1], [2], [3]], [1, 1, 1])"
    by (simp add: fit_at_def toy_env_def toy_cv_selector_def)
  show ?thesis using 1 2 3 4 by blast
qed

text \<open>
  Claim C8 contradicted by the code (the same defect).  After \<open>SelectorCV.select\<close> the object
  holds the first two sequences as \<^verbatim>\<open>X\<close> with lengths \<open>[1, 1]\<close>, where it held all three
  before the call.
\<close>

theorem SelectorCV_select_overwrites_data:
  "X (self (snd (SelectorCV_select (toy_env [] states_score)
                   \<lparr>self = toy_cv_selector, fit_calls = []\<rparr>))) = [[1], [2]] \<and>
   lengths (self (snd (SelectorCV_select (toy_env [] states_score)
                   \<lparr>self = toy_cv_selector, fit_calls = []\<rparr>))) = [1, 1] \<and>
   X (self \<lparr>self = toy_cv_selector, fit_calls = []\<rparr>) = [[1], [2], [3]] \<and>
   lengths (self \<lparr>self = toy_cv_selector, fit_calls = []\<rparr>) = [1, 1, 1]"
  by (simp add: toy_CV_select) (simp add: toy_cv_selector_def)

section \<open>No select raises; what SelectorCV returns after a failed search\<close>

text \<open>
  No \<open>select\<close> raises.  For the three searching selectors, when the search raises (whatever
  the exception and wherever it comes from) the result is what the fit at \<open>n_constant\<close>
  states gives on the data the object holds at that moment: the word's data for BIC and DIC,
  but for CV whatever \<open>CV_score\<close> left in the object, which is the data the object still
  holds when the method returns.  When the search of BIC or DIC completes, the result is a
  fitted model.
\<close>

lemma select_never_raises:
  "(\<exists>r. fst (SelectorConstant_select env s) = Inr r) \<and>
   (\<exists>r. fst (SelectorBIC_select env s) = Inr r \<and>
        (isl (fst (SelectorBIC_search env s)) \<longrightarrow> r = fit_at env (n_constant (self s)) (self s)) \<and>
        (\<not> isl (fst (SelectorBIC_search env s)) \<longrightarrow> (\<exists>m. r = Some m))) \<and>
   (\<exists>r. fst (SelectorDIC_select env s) = Inr r \<and>
        (isl (fst (SelectorDIC_search env s)) \<longrightarrow> r = fit_at env (n_constant (self s)) (self s)) \<and>
        (\<not> isl (fst (SelectorDIC_search env s)) \<longrightarrow> (\<exists>m. r = Some m))) \<and>
   (\<exists>r. fst (SelectorCV_select env s) = Inr r \<and>
        (isl (fst (SelectorCV_search env s)) \<longrightarrow>
           r = fit_at env (n_constant (self s)) (self (snd (SelectorCV_select env s)))))"
proof (intro conjI)
  show "\<exists>r. fst (SelectorConstant_select env s) = Inr r"
    by (simp add: SelectorConstant_select_def base_model_eq Let_def)
next
  obtain x s1 where c: "SelectorBIC_search env s = (x, s1)" by (cases "SelectorBIC_search env s")
  have s1: "self s1 = self s" using SelectorBIC_search_self [of env s] c by simp
  show "\<exists>r. fst (SelectorBIC_select env s) = Inr r \<and>
        (isl (fst (SelectorBIC_search env s)) \<longrightarrow> r = fit_at env (n_constant (self s)) (self s)) \<and>
        (\<not> isl (fst (SelectorBIC_search env s)) \<longrightarrow> (\<exists>m. r = Some m))"
  proof (cases x)
    case (Inl e)
    then show ?thesis using c s1 by (simp add: SelectorBIC_select_def base_model_logged)
  next
    case (Inr r)
    from SelectorBIC_search_Inr_fitted [OF c [unfolded Inr]] obtain m where "r = Some m"
      by blast
    then show ?thesis using c Inr by (simp add: SelectorBIC_select_def)
  qed
next
  obtain x s1 where c: "SelectorDIC_search env s = (x, s1)" by (cases "SelectorDIC_search env s")
  have s1: "self s1 = self s" using SelectorDIC_search_self [of env s] c by simp
  show "\<exists>r. fst (SelectorDIC_select env s) = Inr r \<and>
        (isl (fst (SelectorDIC_search env s)) \<longrightarrow> r = fit_at env (n_constant (self s)) (self s)) \<and>
        (\<not> isl (fst (SelectorDIC_search env s)) \<longrightarrow> (\<exists>m. r = Some m))"
  proof (cases x)
    case (Inl e)
    then show ?thesis using c s1 by (simp add: SelectorDIC_select_def base_model_logged)
  next
    case (Inr r)
    from SelectorDIC_search_Inr_fitted [OF c [unfolded Inr]] obtain m where "r = Some m"
      by blast
    then show ?thesis using c Inr by (simp add: SelectorDIC_select_def)
  qed
next
  obtain x s1 where c: "SelectorCV_search env s = (x, s1)" by (cases "SelectorCV_search env s")
  have "same_but_data (self s) (self s1)" using SelectorCV_search_frame [of s env] c by simp
  then have n: "n_constant (self s1) = n_constant (self s)" by (simp add: same_but_data_def)
  show "\<exists>r. fst (SelectorCV_select env s) = Inr r \<and>
        (isl (fst (SelectorCV_search env s)) \<longrightarrow>
           r = fit_at env (n_constant (self s)) (self (snd (SelectorCV_select env s))))"
  proof (cases x)
    case (Inl e)
    then show ?thesis using c n by (simp add: SelectorCV_select_def base_model_logged)
  next
    case (Inr r)
    then show ?thesis using c by (simp add: SelectorCV_select_def)
  qed
qed

text \<open>
  An instance where every search raises (the fit at 3 states fails, and the word has a single
  sequence, too few for three folds) and each selector returns the fallback model with 5
  states; and one where the searches of BIC and DIC complete.
\<close>

lemma select_never_raises_example:
  "isl (fst (SelectorBIC_search (toy_env [3] states_score)
               \<lparr>self = toy_selector\<lparr>n_constant := 5\<rparr>, fit_calls = []\<rparr>)) \<and>
   fst (SelectorBIC_select (toy_env [3] states_score)
          \<lparr>self = toy_selector\<lparr>n_constant := 5\<rparr>, fit_calls = []\<rparr>) = Inr (Some (5, [[1]], [1])) \<and>
   isl (fst (SelectorDIC_search (toy_env [3] states_score)
               \<lparr>self = toy_selector\<lparr>n_constant := 5\<rparr>, fit_calls = []\<rparr>)) \<and>
   fst (SelectorDIC_select (toy_env [3] states_score)
          \<lparr>self = toy_selector\<lparr>n_constant := 5\<rparr>, fit_calls = []\<rparr>) = Inr (Some (5, [[1]], [1])) \<and>
   isl (fst (SelectorCV_search (toy_env [3] states_score)
               \<lparr>self = toy_selector\<lparr>n_constant := 5\<rparr>, fit_calls = []\<rparr>)) \<and>
   fst (SelectorCV_select (toy_env [3] states_score)
          \<lparr>self = toy_selector\<lparr>n_constant := 5\<rparr>, fit_calls = []\<rparr>) = Inr (Some (5, [[1]], [1])) \<and>
   \<not> isl (fst (SelectorBIC_search (toy_env [] states_score)
               \<lparr>self = toy_selector, fit_calls = []\<rparr>)) \<and>
   (\<exists>m. fst (SelectorBIC_select (toy_env [] states_score)
               \<lparr>self = toy_selector, fit_calls = []\<rparr>) = Inr (Some m)) \<and>
   \<not> isl (fst (SelectorDIC_search (toy_env [] states_score)
               \<lparr>self = toy_selector, fit_calls = []\<rparr>)) \<and>
   (\<exists>m. fst (SelectorDIC_select (toy_env [] states_score)
               \<lparr>self = toy_selector, fit_calls = []\<rparr>) = Inr (Some m))"
proof -
  let ?E = "toy_env [3] states_score" and ?S = "\<lparr>self = toy_selector\<lparr>n_constant := 5\<rparr>, fit_calls = []\<rparr>"
  let ?F = "toy_env [] states_score" and ?T = "\<lparr>self = toy_selector, fit_calls = []\<rparr>"
  have "fst (SelectorBIC_search ?E ?S) = Inl AttributeError"
    by (simp add: SelectorBIC_search_def BIC_score_def base_model_def model_score_def toy_defs
        Let_def)
  then have b: "isl (fst (SelectorBIC_search ?E ?S))" by simp
  have "fst (SelectorDIC_search ?E ?S) = Inl AttributeError"
    by (simp add: SelectorDIC_search_def DIC_score_def base_model_def model_score_def toy_defs
        exact_mean_def exact_sub_def py_gt_def Let_def)
  then have d: "isl (fst (SelectorDIC_search ?E ?S))" by simp
  have "fst (SelectorCV_search ?E ?S) = Inl ValueError"
    by (simp add: SelectorCV_search_def CV_score_def toy_defs KFold_split_def)
  then have c: "isl (fst (SelectorCV_search ?E ?S))" by simp
  have cs: "self (snd (SelectorCV_select ?E ?S)) = toy_selector\<lparr>n_constant := 5\<rparr>"
    by (simp add: SelectorCV_select_def SelectorCV_search_def CV_score_def base_model_def toy_defs
        KFold_split_def Let_def)
  have f: "fit_at ?E (n_constant (self ?S)) (self ?S) = Some (5, [[1]], [1])"
    by (simp add: toy_defs)
  have "fst (SelectorBIC_search ?F ?T) = Inr (Some (4, [[1]], [1]))"
    by (simp add: SelectorBIC_search_def BIC_score_def base_model_def model_score_def toy_defs
        Let_def)
  then have b0: "\<not> isl (fst (SelectorBIC_search ?F ?T))" by simp
  have "fst (SelectorDIC_search ?F ?T) = Inr (Some (2, [[1]], [1]))"
    by (simp add: SelectorDIC_search_def DIC_score_def base_model_def model_score_def toy_defs
        exact_mean_def exact_sub_def py_gt_def Let_def)
  then have d0: "\<not> isl (fst (SelectorDIC_search ?F ?T))" by simp
  note th = select_never_raises [of ?E ?S] and th0 = select_never_raises [of ?F ?T]
  have 1: "fst (SelectorBIC_select ?E ?S) = Inr (Some (5, [[1]], [1]))"
    using th b f by auto
  have 2: "fst (SelectorDIC_select ?E ?S) = Inr (Some (5, [[1]], [1]))"
    using th d f by auto
  have 3: "fst (SelectorCV_select ?E ?S) = Inr (Some (5, [[1]], [1]))"
    using th c f cs by auto
  have 4: "\<exists>m. fst (SelectorBIC_select ?F ?T) = Inr (Some m)"
    using th0 b0 by auto
  have 5: "\<exists>m. fst (SelectorDIC_select ?F ?T) = Inr (Some m)"
    using th0 d0 by auto
  show ?thesis using b d c b0 d0 1 2 3 4 5 by blast
qed

text \<open>
  Claim C1 contradicted by the code for \<open>SelectorCV\<close> (the defect of \<open>CV_score\<close> again, which
  leaves a training fold in \<^verbatim>\<open>self.X, self.lengths\<close>).  No exception escapes, but what
  \<open>select\<close> returns after a failed search is the fit at \<open>n_constant\<close> on the training fold the
  object holds at that moment.  For a word with three one-frame sequences and a fit that
  needs as many frames as states, the candidate with 2 states is scored, the candidate with
  3 states fails on the two-frame fold, and the fallback fit at 3 states runs on that same
  fold: \<open>select\<close> returns \<^verbatim>\<open>None\<close>, where the fit at \<open>n_constant\<close> on the word's data, which
  is what \<open>SelectorConstant\<close> returns, is a model.  With a fit that fails at 3 states only and
  \<open>n_constant = 5\<close>, the model returned is fitted on the fold \<open>[[2], [3]]\<close>, not on the word's
  three sequences.
\<close>

theorem SelectorCV_select_fallback_on_fold_data:
  "fst (SelectorCV_search toy_frames_env \<lparr>self = toy_cv_selector, fit_calls = []\<rparr>) =
     Inl AttributeError \<and>
   SelectorCV_select toy_frames_env \<lparr>self = toy_cv_selector, fit_calls = []\<rparr> =
     (Inr None,
      \<lparr>self = toy_cv_selector\<lparr>X := [[2], [3]], lengths := [1, 1]\<rparr>,
       fit_calls =
         [(2, [[2], [3]], [1, 1]), (2, [[1], [3]], [1, 1]), (2, [[1], [2]], [1, 1]),
          (3, [[2], [3]], [1, 1]), (3, [[2], [3]], [1, 1])]\<rparr>) \<and>
   fst (SelectorConstant_select toy_frames_env \<lparr>self = toy_cv_selector, fit_calls = []\<rparr>) =
     Inr (Some (3, [[1], [2], [3]], [1, 1, 1])) \<and>
   fst (SelectorCV_select (toy_env [3] states_score)
          \<lparr>self = toy_cv_selector\<lparr>n_constant := 5\<rparr>, fit_calls = []\<rparr>) =
     Inr (Some (5, [[2], [3]], [1, 1])) \<and>
   fst (SelectorConstant_select (toy_env [3] states_score)
          \<lparr>self = toy_cv_selector\<lparr>n_constant := 5\<rparr>, fit_calls = []\<rparr>) =
     Inr (Some (5, [[1], [2], [3]], [1, 1, 1]))"
proof -
  have 1: "fst (SelectorCV_search toy_frames_env \<lparr>self = toy_cv_selector, fit_calls = []\<rparr>) =
     Inl AttributeError"
    by (simp add: SelectorCV_search_def CV_score_def base_model_def model_score_def
        toy_frames_env_def toy_env_def toy_cv_selector_def states_score_def KFold_split_def
        exact_mean_def py_gt_def upt_rec Let_def)
  have 2: "SelectorCV_select toy_frames_env \<lparr>self = toy_cv_selector, fit_calls = []\<rparr> =
     (Inr None,
      \<lparr>self = toy_cv_selector\<lparr>X := [[2], [3]], lengths := [1, 1]\<rparr>,
       fit_calls =
         [(2, [[2], [3]], [1, 1]), (2, [[1], [3]], [1, 1]), (2, [[1], [2]], [1, 1]),
          (3, [[2], [3]], [1, 1]), (3, [[2], [3]], [1, 1])]\<rparr>)"
    by (simp add: SelectorCV_select_def SelectorCV_search_def CV_score_def base_model_def
        model_score_def toy_frames_env_def toy_env_def toy_cv_selector_def states_score_def
        KFold_split_def exact_mean_def py_gt_def upt_rec Let_def)
  have 3: "fst (SelectorConstant_select toy_frames_env \<lparr>self = toy_cv_selector, fit_calls = []\<rparr>) =
     Inr (Some (3, [[1], [2], [3]], [1, 1, 1]))"
    by (simp add: SelectorConstant_select_def base_model_def toy_frames_env_def toy_env_def
        toy_cv_selector_def Let_def)
  have 4: "fst (SelectorCV_select (toy_env [3] states_score)
          \<lparr>self = toy_cv_selector\<lparr>n_constant := 5\<rparr>, fit_calls = []\<rparr>) =
     Inr (Some (5, [[2], [3]], [1, 1]))"
    by (simp add: SelectorCV_select_def SelectorCV_search_def CV_score_def base_model_def
        model_score_def toy_env_def toy_cv_selector_def states_score_def
        KFold_split_def exact_mean_def py_gt_def upt_rec Let_def)
  have 5: "fst (SelectorConstant_select (toy_env [3] states_score)
          \<lparr>self = toy_cv_selector\<lparr>n_constant := 5\<rparr>, fit_calls = []\<rparr>) =
     Inr (Some (5, [[1], [2], [3]], [1, 1, 1]))"
    by (simp add: SelectorConstant_select_def base_model_def toy_env_def toy_cv_selector_def
        Let_def)
  show ?thesis using 1 2 3 4 5 by blast
qed

section \<open>The recognizer\<close>

lemma update_fresh: "k \<notin> fst ` set al \<Longrightarrow> AList.update k v al = al @ [(k, v)]"
  by (induction al) auto

lemma recognize_models_eq:
  "distinct (map fst models) \<Longrightarrow> fst ` set probdict \<inter> fst ` set models = {} \<Longrightarrow>
   recognize_models env models Xs ls (b, probdict, g) =
     (fst (running_best py_gt (b, Some g) (score_row env models Xs ls)),
      probdict @ score_row env models Xs ls,
      the (snd (running_best py_gt (b, Some g) (score_row env models Xs ls))))"
proof (induction models arbitrary: b probdict g)
  case Nil
  show ?case by (simp add: score_row_def)
next
  case (Cons a models)
  obtain w m where a: "a = (w, m)" by (cases a)
  have fresh: "w \<notin> fst ` set probdict" using Cons.prems(2) a by auto
  have d: "distinct (map fst models)" using Cons.prems(1) by simp
  have disj: "fst ` set (probdict @ [(w, cell env m Xs ls)]) \<inter> fst ` set models = {}"
    using Cons.prems a by auto
  show ?case
    using Cons.IH [OF d disj]
    by (simp add: a score_row_def cell_def update_fresh [OF fresh] Let_def)
qed

lemma recognize_models_guess_only:
  "snd (snd (recognize_models env models Xs ls (b, probdict, g))) =
     the (snd (running_best py_gt (b, Some g) (score_row env models Xs ls)))"
proof (induction models arbitrary: b probdict g)
  case Nil
  show ?case by (simp add: score_row_def)
next
  case (Cons a models)
  obtain w m where a: "a = (w, m)" by (cases a)
  show ?case using Cons.IH by (simp add: a score_row_def cell_def Let_def)
qed

lemma recognize_items_eq:
  "recognize_items env models ts (ps, gs) =
     (ps @ map (\<lambda>t. fst (snd (recognize_models env models (fst (snd t)) (snd (snd t)) (NInf, [], '''')))) ts,
      gs @ map (\<lambda>t. snd (snd (recognize_models env models (fst (snd t)) (snd (snd t)) (NInf, [], '''')))) ts)"
proof (induction ts arbitrary: ps gs)
  case Nil
  show ?case by simp
next
  case (Cons t ts)
  obtain tw Xs ls where t: "t = (tw, Xs, ls)" by (cases t)
  obtain b pd g where r: "recognize_models env models Xs ls (NInf, [], '''') = (b, pd, g)"
    by (cases "recognize_models env models Xs ls (NInf, [], '''')")
  show ?case using Cons.IH by (simp add: t r)
qed

lemma recognize_eq:
  "recognize env models ts =
     (map (\<lambda>t. fst (snd (recognize_models env models (fst (snd t)) (snd (snd t)) (NInf, [], '''')))) ts,
      map (\<lambda>t. snd (snd (recognize_models env models (fst (snd t)) (snd (snd t)) (NInf, [], '''')))) ts)"
  by (simp add: recognize_def recognize_items_eq)

lemma recognize_nth:
  assumes "i < length test_set"
  shows "snd (recognize env models test_set) ! i =
     the (snd (running_best py_gt (NInf, Some '''')
        (score_row env models (fst (snd (test_set ! i))) (snd (snd (test_set ! i))))))"
  using assms by (simp add: recognize_eq recognize_models_guess_only)

lemma recognize_row_nth:
  assumes "distinct (map fst models)" and "i < length test_set"
  shows "fst (recognize env models test_set) ! i =
     score_row env models (fst (snd (test_set ! i))) (snd (snd (test_set ! i)))"
  using assms(2)
    recognize_models_eq [OF assms(1), where probdict = "[]" and env = env
      and Xs = "fst (snd (test_set ! i))" and ls = "snd (snd (test_set ! i))" and b = NInf
      and g = "''''"]
  by (simp add: recognize_eq)

lemmas recog_defs = recognize_def model_score_def toy_env_def strict_score_def shape1_def
  py_gt_def toy_models_def toy_test_set_def Let_def

lemma toy_recognize:
  "recognize (toy_env [] strict_score) toy_models toy_test_set =
     ([[(''FISH'', Fin 3), (''BOOK'', Fin 4), (''CAT'', Fin 4)],
       [(''FISH'', NInf), (''BOOK'', NInf), (''CAT'', NInf)]],
      [''BOOK'', ''''])"
  by (simp add: recog_defs)

text \<open>
  Claim C7.  \<open>recognize\<close> returns one score row and one guess per test item, whatever the
  models do when scoring; for a model mapping (distinct keys) the rows are, in the order of
  the test items, the cells of every model in the mapping's order, and a cell whose scoring
  raises holds negative infinity.
\<close>

theorem recognize_one_row_per_item:
  "length (fst (recognize env models test_set)) = length test_set \<and>
   length (snd (recognize env models test_set)) = length test_set \<and>
   (distinct (map fst models) \<longrightarrow>
      fst (recognize env models test_set) =
        map (\<lambda>t. map (\<lambda>p. (fst p,
                            case model_score env (snd p) (fst (snd t)) (snd (snd t)) of
                              Inr v \<Rightarrow> v
                            | Inl e \<Rightarrow> NInf)) models) test_set)"
proof (intro conjI impI)
  assume d: "distinct (map fst models)"
  have "fst (snd (recognize_models env models Xs ls (NInf, [], ''''))) =
      score_row env models Xs ls" for Xs ls
    using recognize_models_eq [OF d, where probdict = "[]" and env = env and Xs = Xs
        and ls = ls and b = NInf and g = "''''"]
    by simp
  then show "fst (recognize env models test_set) =
        map (\<lambda>t. map (\<lambda>p. (fst p,
                            case model_score env (snd p) (fst (snd t)) (snd (snd t)) of
                              Inr v \<Rightarrow> v
                            | Inl e \<Rightarrow> NInf)) models) test_set"
    by (simp add: recognize_eq score_row_def cell_def)
qed (simp_all add: recognize_eq)

text \<open>An instance: two items, two rows; every scoring of the second item raises.\<close>

theorem recognize_one_row_per_item_witness:
  "distinct (map fst toy_models) \<and>
   length (fst (recognize (toy_env [] strict_score) toy_models toy_test_set)) = 2 \<and>
   length (snd (recognize (toy_env [] strict_score) toy_models toy_test_set)) = 2 \<and>
   fst (recognize (toy_env [] strict_score) toy_models toy_test_set) =
     [[(''FISH'', Fin 3), (''BOOK'', Fin 4), (''CAT'', Fin 4)],
      [(''FISH'', NInf), (''BOOK'', NInf), (''CAT'', NInf)]]"
proof -
  have d: "distinct (map fst toy_models)" by (simp add: toy_models_def)
  have l: "length toy_test_set = 2" by (simp add: toy_test_set_def)
  from recognize_one_row_per_item [of "toy_env [] strict_score" toy_models toy_test_set] d l
  have "length (fst (recognize (toy_env [] strict_score) toy_models toy_test_set)) = 2"
    "length (snd (recognize (toy_env [] strict_score) toy_models toy_test_set)) = 2"
    "fst (recognize (toy_env [] strict_score) toy_models toy_test_set) =
        map (\<lambda>t. map (\<lambda>p. (fst p,
                            case model_score (toy_env [] strict_score) (snd p) (fst (snd t))
                                   (snd (snd t)) of
                              Inr v \<Rightarrow> v
                            | Inl e \<Rightarrow> NInf)) toy_models) toy_test_set"
    by simp_all
  then show ?thesis using d
    by (simp add: model_score_def toy_env_def strict_score_def shape1_def toy_models_def
        toy_test_set_def)
qed

text \<open>
  Claim C4, as the code has it.  For a test item whose row has a cell above negative
  infinity, the guess is a word of the mapping whose score no cell of the row exceeds, and
  every word before it in the mapping's order has a strictly smaller score (or NaN): it is
  the first maximum of the row.
\<close>

theorem recognize_guess_is_first_maximum:
  assumes "distinct (map fst models)" and "i < length test_set"
    and "\<exists>c \<in> set (fst (recognize env models test_set) ! i). py_gt (snd c) NInf"
  shows "\<exists>pre w v post.
     fst (recognize env models test_set) ! i = pre @ (w, v) # post \<and>
     snd (recognize env models test_set) ! i = w \<and>
     w \<in> fst ` set models \<and>
     (\<forall>c \<in> set (fst (recognize env models test_set) ! i). \<not> py_gt (snd c) v) \<and>
     (\<forall>c \<in> set pre. snd c = NaN \<or> py_gt v (snd c))"
proof -
  let ?row = "score_row env models (fst (snd (test_set ! i))) (snd (snd (test_set ! i)))"
  have row: "fst (recognize env models test_set) ! i = ?row"
    by (rule recognize_row_nth [OF assms(1,2)])
  obtain b k where rb: "running_best py_gt (NInf, Some '''') ?row = (b, k)"
    by (cases "running_best py_gt (NInf, Some '''') ?row")
  have g: "snd (recognize env models test_set) ! i = the k"
    using recognize_nth [OF assms(2), of env models] rb by simp
  from assms(3) row have ex: "\<exists>c \<in> set ?row. py_gt (snd c) NInf" by simp
  from running_best_cases [OF float_order_gt rb] ex
  obtain pre n post where d: "?row = pre @ (n, b) # post" "k = Some n"
    "\<forall>(c, v) \<in> set pre. v = NaN \<or> py_gt b v" "\<forall>(c, v) \<in> set post. \<not> py_gt v b"
    by auto
  have pre: "\<forall>c \<in> set pre. snd c = NaN \<or> py_gt b (snd c)" using d(3) by auto
  have post: "\<forall>c \<in> set post. \<not> py_gt (snd c) b" using d(4) by auto
  have all: "\<forall>c \<in> set ?row. \<not> py_gt (snd c) b"
  proof
    fix c assume "c \<in> set ?row"
    then consider "c \<in> set pre" | "c = (n, b)" | "c \<in> set post" unfolding d(1) by auto
    then show "\<not> py_gt (snd c) b"
    proof cases
      case 1
      then have "snd c = NaN \<or> py_gt b (snd c)" using pre by blast
      then show ?thesis
        using float_order_NaN [OF float_order_gt] float_order_asym [OF float_order_gt] by metis
    next
      case 2
      then show ?thesis using float_order_irrefl [OF float_order_gt] by simp
    next
      case 3
      then show ?thesis using post by blast
    qed
  qed
  have "(n, b) \<in> set ?row" unfolding d(1) by simp
  then have key: "n \<in> fst ` set models" by (auto simp: score_row_def)
  have "fst (recognize env models test_set) ! i = pre @ (n, b) # post \<and>
     snd (recognize env models test_set) ! i = n \<and> n \<in> fst ` set models \<and>
     (\<forall>c \<in> set (fst (recognize env models test_set) ! i). \<not> py_gt (snd c) b) \<and>
     (\<forall>c \<in> set pre. snd c = NaN \<or> py_gt b (snd c))"
    using row d(1,2) g key all pre by simp
  then show ?thesis by blast
qed

text \<open>An instance: BOOK and CAT tie at the maximum of the first row and BOOK, met first, is the guess.\<close>

theorem recognize_guess_is_first_maximum_witness:
  "distinct (map fst toy_models) \<and> (0::nat) < length toy_test_set \<and>
   fst (recognize (toy_env [] strict_score) toy_models toy_test_set) ! 0 =
     [(''FISH'', Fin 3), (''BOOK'', Fin 4), (''CAT'', Fin 4)] \<and>
   snd (recognize (toy_env [] strict_score) toy_models toy_test_set) ! 0 = ''BOOK'' \<and>
   (\<exists>pre w v post.
     fst (recognize (toy_env [] strict_score) toy_models toy_test_set) ! 0 = pre @ (w, v) # post \<and>
     snd (recognize (toy_env [] strict_score) toy_models toy_test_set) ! 0 = w \<and>
     w \<in> fst ` set toy_models \<and>
     (\<forall>c \<in> set (fst (recognize (toy_env [] strict_score) toy_models toy_test_set) ! 0).
        \<not> py_gt (snd c) v) \<and>
     (\<forall>c \<in> set pre. snd c = NaN \<or> py_gt v (snd c)))"
proof -
  have d: "distinct (map fst toy_models)" by (simp add: toy_models_def)
  have l: "(0::nat) < length toy_test_set" by (simp add: toy_test_set_def)
  have r: "fst (recognize (toy_env [] strict_score) toy_models toy_test_set) ! 0 =
     [(''FISH'', Fin 3), (''BOOK'', Fin 4), (''CAT'', Fin 4)]"
    "snd (recognize (toy_env [] strict_score) toy_models toy_test_set) ! 0 = ''BOOK''"
    by (simp_all add: toy_recognize)
  have h: "\<exists>c \<in> set (fst (recognize (toy_env [] strict_score) toy_models toy_test_set) ! 0).
      py_gt (snd c) NInf"
    unfolding r by (simp add: py_gt_def)
  from recognize_guess_is_first_maximum [OF d l h] d l r show ?thesis by blast
qed

text \<open>
  Claim C4 as the spec words it fails on an item that no model can score: the row holds three
  words, all at negative infinity, and the guess is the empty string, which is none of them.
\<close>

theorem recognize_argmax_counterexample:
  "recognize (toy_env [] strict_score) toy_models [(0, [[1, 2]], [1])] =
     ([[(''FISH'', NInf), (''BOOK'', NInf), (''CAT'', NInf)]], [''''])"
  by (simp add: recog_defs)

text \<open>
  Claim C9, as the code has it.  For a test item all of whose cells are negative infinity
  (the empty mapping included) a row is still appended and the guess is the empty string;
  that is not a key of the mapping provided no word of the mapping is the empty string.
\<close>

theorem recognize_all_failed_guess_empty:
  assumes "i < length test_set"
    and "\<forall>p \<in> set models.
           cell env (snd p) (fst (snd (test_set ! i))) (snd (snd (test_set ! i))) = NInf"
  shows "length (fst (recognize env models test_set)) = length test_set \<and>
     snd (recognize env models test_set) ! i = '''' \<and>
     ('''' \<notin> fst ` set models \<longrightarrow> snd (recognize env models test_set) ! i \<notin> fst ` set models)"
proof -
  let ?row = "score_row env models (fst (snd (test_set ! i))) (snd (snd (test_set ! i)))"
  have "\<forall>c \<in> set ?row. \<not> py_gt (snd c) NInf"
    using assms(2) by (auto simp: score_row_def py_gt_def)
  from running_best_no_better [of ?row py_gt NInf "Some ''''", OF this]
  have "snd (recognize env models test_set) ! i = []"
    using recognize_nth [OF assms(1), of env models] by simp
  then show ?thesis by (simp add: recognize_eq)
qed

text \<open>An instance: the second test item, whose three cells are negative infinity.\<close>

theorem recognize_all_failed_guess_empty_witness:
  "(1::nat) < length toy_test_set \<and>
   cell (toy_env [] strict_score) (Some (3, [[1]], [1])) [[1, 2]] [1] = NInf \<and>
   cell (toy_env [] strict_score) (Some (4, [[5]], [1])) [[1, 2]] [1] = NInf \<and>
   cell (toy_env [] strict_score) (Some (4, [[7]], [1])) [[1, 2]] [1] = NInf \<and>
   length (fst (recognize (toy_env [] strict_score) toy_models toy_test_set)) = 2 \<and>
   snd (recognize (toy_env [] strict_score) toy_models toy_test_set) ! 1 = '''' \<and>
   snd (recognize (toy_env [] strict_score) toy_models toy_test_set) ! 1 \<notin> fst ` set toy_models"
proof -
  have l: "(1::nat) < length toy_test_set" by (simp add: toy_test_set_def)
  have c: "cell (toy_env [] strict_score) (Some (3, [[1]], [1])) [[1, 2]] [1] = NInf"
    "cell (toy_env [] strict_score) (Some (4, [[5]], [1])) [[1, 2]] [1] = NInf"
    "cell (toy_env [] strict_score) (Some (4, [[7]], [1])) [[1, 2]] [1] = NInf"
    by (simp_all add: cell_def model_score_def toy_env_def strict_score_def shape1_def)
  have h: "\<forall>p \<in> set toy_models.
      cell (toy_env [] strict_score) (snd p) (fst (snd (toy_test_set ! 1)))
        (snd (snd (toy_test_set ! 1))) = NInf"
    using c by (simp add: toy_models_def toy_test_set_def)
  have k: "'''' \<notin> fst ` set toy_models" by (simp add: toy_models_def)
  have n: "length toy_test_set = 2" by (simp add: toy_test_set_def)
  from recognize_all_failed_guess_empty [OF l h] k n l c show ?thesis by simp
qed

text \<open>
  Claim C9 as the spec words it fails for a mapping that has the empty string as a word:
  the guess for an item that no model can score is that very key.
\<close>

theorem recognize_empty_key_counterexample:
  "recognize (toy_env [] strict_score) [('''', Some (3, [[1]], [1]))] [(0, [[1, 2]], [1])] =
     ([[('''', NInf)]], ['''']) \<and>
   snd (recognize (toy_env [] strict_score) [('''', Some (3, [[1]], [1]))] [(0, [[1, 2]], [1])]) ! 0
     \<in> fst ` set [('''', Some (3 :: int, [[1 :: nat]], [1 :: nat]))]"
  by (simp add: recog_defs)

end
